theory Spec2Isabelle
  imports Complex_Main "HOL-Library.Multiset" "HOL-Library.Code_Target_Nat"
begin

section \<open>Data model of the redaction route\<close>

text \<open>
  The route handler \<^verbatim>\<open>src/app/api/redact-pdf/route.ts\<close> works on JavaScript strings
  and numbers. A JavaScript string is a sequence of UTF-16 code units; it is modelled as
  the list of its code units, so that \<^verbatim>\<open>s.length\<close> is the length of the list. The
  function \<open>js\<close> turns an ASCII literal into such a list. Offsets and lengths (integers in
  every input of the route) are modelled as \<open>int\<close>, coordinates and scores as \<open>real\<close>:
  the rounding of IEEE doubles is not modelled.
\<close>

type_synonym jsstring = "nat list"

definition js :: "string \<Rightarrow> jsstring" where
  "js s = map of_char s"

text \<open>
  \<^verbatim>\<open>interface PIIEntity { text; category; offset; length; confidenceScore }\<close>.
  The fields carry the prefix \<open>e_\<close> (\<open>text\<close> and \<open>length\<close> are taken in Isabelle, and the
  other interfaces of the route reuse \<open>offset\<close>, \<open>length\<close>, \<open>text\<close> and \<open>category\<close>).
\<close>

record PIIEntity =
  e_text :: jsstring
  e_category :: jsstring
  e_offset :: int
  e_length :: int
  e_confidenceScore :: real

section \<open>mergeEntities\<close>

text \<open>
  The half-open interval test of the callback:
  \<^verbatim>\<open>const hasOverlap = (customStart < azureEnd && customEnd > azureStart)\<close>.
\<close>

definition hasOverlap :: "PIIEntity \<Rightarrow> PIIEntity \<Rightarrow> bool" where
  "hasOverlap customEntity azureEntity =
     (let customStart = e_offset customEntity;
          customEnd = e_offset customEntity + e_length customEntity;
          azureStart = e_offset azureEntity;
          azureEnd = e_offset azureEntity + e_length azureEntity
      in customStart < azureEnd \<and> customEnd > azureStart)"

text \<open>
  \<^verbatim>\<open>const indexToRemove = merged.findIndex(pred); if (indexToRemove !== -1) merged.splice(indexToRemove, 1)\<close>:
  the first element that satisfies the predicate is removed, the list is unchanged when
  there is none.
\<close>

fun spliceFirst :: "('a \<Rightarrow> bool) \<Rightarrow> 'a list \<Rightarrow> 'a list" where
  "spliceFirst pred [] = []"
| "spliceFirst pred (e # es) = (if pred e then es else e # spliceFirst pred es)"

text \<open>
  The predicate given to \<^verbatim>\<open>findIndex\<close>:
  \<^verbatim>\<open>e.offset === azureEntity.offset && e.length === azureEntity.length && e.category === cat\<close>.
\<close>

definition sameSpan :: "PIIEntity \<Rightarrow> jsstring \<Rightarrow> PIIEntity \<Rightarrow> bool" where
  "sameSpan azureEntity cat e =
     (e_offset e = e_offset azureEntity \<and> e_length e = e_length azureEntity \<and> e_category e = cat)"

text \<open>
  \<^verbatim>\<open>azureEntities.some(azureEntity => ...)\<close> for one custom entity. \<^verbatim>\<open>some\<close> calls the
  callback on the Azure entities in order and stops at the first call that returns true.
  The callback mutates \<^verbatim>\<open>merged\<close>, so the list is threaded through: the result is the value
  of \<^verbatim>\<open>overlaps\<close> and the list \<^verbatim>\<open>merged\<close> after the calls.
\<close>

fun someOverlaps :: "PIIEntity \<Rightarrow> PIIEntity list \<Rightarrow> PIIEntity list \<Rightarrow> bool \<times> PIIEntity list" where
  "someOverlaps customEntity [] merged = (False, merged)"
| "someOverlaps customEntity (azureEntity # rest) merged =
     (if hasOverlap customEntity azureEntity \<and> e_category customEntity = js ''Occupation''
           \<and> e_category azureEntity = js ''Organization''
      then someOverlaps customEntity rest
             (spliceFirst (sameSpan azureEntity (js ''Organization'')) merged)
      else if hasOverlap customEntity azureEntity \<and> e_category customEntity = js ''DEBankCode''
           \<and> e_category azureEntity = js ''PhoneNumber''
      then someOverlaps customEntity rest
             (spliceFirst (sameSpan azureEntity (js ''PhoneNumber'')) merged)
      else if hasOverlap customEntity azureEntity \<and> e_category customEntity = js ''DEBankCode''
           \<and> e_category azureEntity = js ''InternationalBankingAccountNumber''
      then someOverlaps customEntity rest
             (spliceFirst (sameSpan azureEntity (js ''InternationalBankingAccountNumber'')) merged)
      else if hasOverlap customEntity azureEntity then (True, merged)
      else someOverlaps customEntity rest merged)"

text \<open>
  \<^verbatim>\<open>customEntities.forEach(customEntity => { ...; if (!overlaps) merged.push(customEntity) })\<close>.
\<close>

fun forEachCustom :: "PIIEntity list \<Rightarrow> PIIEntity list \<Rightarrow> PIIEntity list \<Rightarrow> PIIEntity list" where
  "forEachCustom azureEntities [] merged = merged"
| "forEachCustom azureEntities (customEntity # rest) merged =
     (case someOverlaps customEntity azureEntities merged of
        (overlaps, merged') \<Rightarrow>
          forEachCustom azureEntities rest (if overlaps then merged' else merged' @ [customEntity]))"

text \<open>
  \<^verbatim>\<open>const merged = [...azureEntities]; ...; merged.sort((a, b) => a.offset - b.offset); return merged\<close>.
  \<^verbatim>\<open>Array.prototype.sort\<close> is stable, and so is \<open>sort_key\<close>.
\<close>

definition mergeEntities :: "PIIEntity list \<Rightarrow> PIIEntity list \<Rightarrow> PIIEntity list" where
  "mergeEntities azureEntities customEntities =
     sort_key e_offset (forEachCustom azureEntities customEntities azureEntities)"

subsection \<open>Notions used to state the lemmas about mergeEntities\<close>

text \<open>
  The three priority rules of the callback as one predicate on a custom entity and an
  Azure entity, the \<^verbatim>\<open>findIndex\<close> predicate of an Azure entity with its own category, the
  Azure entities on which the callback of one custom entity splices (the calls made
  before \<^verbatim>\<open>some\<close> stops), the value of \<^verbatim>\<open>overlaps\<close>, and \<^verbatim>\<open>merged\<close> after one custom
  entity. The lemmas \<open>someOverlaps_eq\<close> and \<open>forEachCustom_step\<close> below relate them to the
  functions above.
\<close>

definition prio :: "PIIEntity \<Rightarrow> PIIEntity \<Rightarrow> bool" where
  "prio c a = (hasOverlap c a \<and>
     (e_category c = js ''Occupation'' \<and> e_category a = js ''Organization''
      \<or> e_category c = js ''DEBankCode'' \<and> e_category a = js ''PhoneNumber''
      \<or> e_category c = js ''DEBankCode'' \<and> e_category a = js ''InternationalBankingAccountNumber''))"

definition sameAs :: "PIIEntity \<Rightarrow> PIIEntity \<Rightarrow> bool" where
  "sameAs a = sameSpan a (e_category a)"

fun triggers :: "PIIEntity \<Rightarrow> PIIEntity list \<Rightarrow> PIIEntity list" where
  "triggers c [] = []"
| "triggers c (a # as) =
     (if prio c a then a # triggers c as
      else if hasOverlap c a then [] else triggers c as)"

definition blocked :: "PIIEntity \<Rightarrow> PIIEntity list \<Rightarrow> bool" where
  "blocked c as = list_ex (\<lambda>a. hasOverlap c a \<and> \<not> prio c a) as"

definition afterCustom :: "PIIEntity list \<Rightarrow> PIIEntity \<Rightarrow> PIIEntity list \<Rightarrow> PIIEntity list" where
  "afterCustom as c m =
     (if blocked c as then fold (\<lambda>b. spliceFirst (sameAs b)) (triggers c as) m
      else fold (\<lambda>b. spliceFirst (sameAs b)) (triggers c as) m @ [c])"

section \<open>JavaScript strings\<close>

text \<open>
  The string operations the route uses, on lists of UTF-16 code units.
  \<^verbatim>\<open>\d\<close> is \<^verbatim>\<open>[0-9]\<close>, \<^verbatim>\<open>\w\<close> is \<^verbatim>\<open>[A-Za-z0-9_]\<close>; \<^verbatim>\<open>\s\<close>, \<^verbatim>\<open>trim\<close> and the
  whitespace \<^verbatim>\<open>parseInt\<close> skips are the ECMAScript WhiteSpace and LineTerminator code
  points.
\<close>

definition isDigit :: "nat \<Rightarrow> bool" where
  "isDigit c = (48 \<le> c \<and> c \<le> 57)"

definition isUpper :: "nat \<Rightarrow> bool" where
  "isUpper c = (65 \<le> c \<and> c \<le> 90)"

definition isLower :: "nat \<Rightarrow> bool" where
  "isLower c = (97 \<le> c \<and> c \<le> 122)"

definition isWordChar :: "nat \<Rightarrow> bool" where
  "isWordChar c = (isDigit c \<or> isUpper c \<or> isLower c \<or> c = 95)"

definition isSpace :: "nat \<Rightarrow> bool" where
  "isSpace c = (c = 9 \<or> c = 10 \<or> c = 11 \<or> c = 12 \<or> c = 13 \<or> c = 32 \<or> c = 160 \<or> c = 5760
     \<or> (8192 \<le> c \<and> c \<le> 8202) \<or> c = 8232 \<or> c = 8233 \<or> c = 8239 \<or> c = 8287
     \<or> c = 12288 \<or> c = 65279)"

text \<open>
  \<^verbatim>\<open>toLowerCase\<close>, code unit by code unit: exact on Basic Latin and Latin-1 (A-Z and
  U+00C0..U+00DE without the multiplication sign move by 32; the sharp s U+00DF is its own
  lower case). Code units outside Latin-1 are left as they are, which is what JavaScript
  does for the ones that have no case; the case tables of the other scripts are not
  modelled.
\<close>

definition lowerChar :: "nat \<Rightarrow> nat" where
  "lowerChar c = (if isUpper c \<or> (192 \<le> c \<and> c \<le> 222 \<and> c \<noteq> 215) then c + 32 else c)"

definition toLowerCase :: "jsstring \<Rightarrow> jsstring" where
  "toLowerCase s = map lowerChar s"

text \<open>\<^verbatim>\<open>s.trim()\<close>.\<close>

definition trim :: "jsstring \<Rightarrow> jsstring" where
  "trim s = rev (dropWhile isSpace (rev (dropWhile isSpace s)))"

text \<open>
  \<^verbatim>\<open>s.substring(start, end)\<close>: both arguments are clamped to \<open>[0, s.length]\<close> and swapped
  when the first is the larger.
\<close>

definition substring :: "jsstring \<Rightarrow> int \<Rightarrow> int \<Rightarrow> jsstring" where
  "substring s start end' =
     (let len = int (length s);
          a = min (max start 0) len;
          b = min (max end' 0) len;
          from = min a b;
          to = max a b
      in take (nat (to - from)) (drop (nat from) s))"

text \<open>\<^verbatim>\<open>s.includes(t)\<close>: \<open>t\<close> occurs in \<open>s\<close> as a contiguous block.\<close>

fun startsWith :: "jsstring \<Rightarrow> jsstring \<Rightarrow> bool" where
  "startsWith s [] = True"
| "startsWith [] (p # ps) = False"
| "startsWith (c # cs) (p # ps) = (c = p \<and> startsWith cs ps)"

fun includesStr :: "jsstring \<Rightarrow> jsstring \<Rightarrow> bool" where
  "includesStr [] t = (t = [])"
| "includesStr (c # cs) t = (startsWith (c # cs) t \<or> includesStr cs t)"

text \<open>
  \<^verbatim>\<open>s.split(/\s+/)\<close>: the pieces between the maximal runs of whitespace; a run at the
  start or at the end leaves an empty piece there, and the empty string gives one empty
  piece. The flag says that the scan is inside a run; the piece read so far is kept
  reversed.
\<close>

fun splitWsAux :: "bool \<Rightarrow> jsstring \<Rightarrow> jsstring \<Rightarrow> jsstring list" where
  "splitWsAux inRun cur [] = [rev cur]"
| "splitWsAux inRun cur (c # cs) =
     (if isSpace c then
        (if inRun then splitWsAux True cur cs else rev cur # splitWsAux True [] cs)
      else splitWsAux False (c # cur) cs)"

definition splitWs :: "jsstring \<Rightarrow> jsstring list" where
  "splitWs s = splitWsAux False [] s"

text \<open>\<^verbatim>\<open>s.split(' ')\<close>: every single space separates.\<close>

fun splitSpaceAux :: "jsstring \<Rightarrow> jsstring \<Rightarrow> jsstring list" where
  "splitSpaceAux cur [] = [rev cur]"
| "splitSpaceAux cur (c # cs) =
     (if c = 32 then rev cur # splitSpaceAux [] cs else splitSpaceAux (c # cur) cs)"

definition splitSpace :: "jsstring \<Rightarrow> jsstring list" where
  "splitSpace s = splitSpaceAux [] s"

text \<open>
  \<^verbatim>\<open>parseInt(s, 10)\<close>: leading whitespace is skipped, a sign is read, then the longest
  run of decimal digits; with no digit the result is NaN (\<open>None\<close>). The values the route
  compares are far below \<open>2^53\<close>, so the integer is exact.
\<close>

definition digitsValue :: "jsstring \<Rightarrow> int" where
  "digitsValue ds = foldl (\<lambda>acc d. 10 * acc + (int d - 48)) 0 ds"

definition parseInt :: "jsstring \<Rightarrow> int option" where
  "parseInt s =
     (let t = dropWhile isSpace s;
          neg = (case t of [] \<Rightarrow> False | c # _ \<Rightarrow> c = 45);
          u = (case t of [] \<Rightarrow> [] | c # cs \<Rightarrow> if c = 43 \<or> c = 45 then cs else t);
          ds = takeWhile isDigit u
      in if ds = [] then None
         else Some (if neg then - digitsValue ds else digitsValue ds))"

section \<open>Regular expressions\<close>

text \<open>
  The regular expressions of the route that are tested against a string are written as
  values of \<open>rx\<close> and matched by derivatives. \<open>Range lo hi\<close> is one code unit between \<open>lo\<close>
  and \<open>hi\<close>. A pattern \<^verbatim>\<open>/^r$/\<close> is \<open>rxFull r\<close> (the whole string matches; none of the
  patterns has the \<^verbatim>\<open>m\<close> flag, so \<^verbatim>\<open>$\<close> is the end of the string), a pattern \<^verbatim>\<open>/^r/\<close> is
  \<open>rxPrefix r\<close> (some prefix of the string matches). Under the \<^verbatim>\<open>i\<close> flag a letter of the
  pattern stands for both of its ASCII cases (\<open>letter\<close>); without the \<^verbatim>\<open>u\<close> flag no other
  code unit is equated with an ASCII letter.
\<close>

datatype rx = Never | Eps | Range nat nat | Cat rx rx | Alt rx rx | Star rx

fun nullable :: "rx \<Rightarrow> bool" where
  "nullable Never = False"
| "nullable Eps = True"
| "nullable (Range lo hi) = False"
| "nullable (Cat r s) = (nullable r \<and> nullable s)"
| "nullable (Alt r s) = (nullable r \<or> nullable s)"
| "nullable (Star r) = True"

fun rxCat :: "rx \<Rightarrow> rx \<Rightarrow> rx" where
  "rxCat Never s = Never"
| "rxCat Eps s = s"
| "rxCat r s = Cat r s"

fun rxAlt :: "rx \<Rightarrow> rx \<Rightarrow> rx" where
  "rxAlt Never s = s"
| "rxAlt r Never = r"
| "rxAlt r s = Alt r s"

fun deriv :: "nat \<Rightarrow> rx \<Rightarrow> rx" where
  "deriv c Never = Never"
| "deriv c Eps = Never"
| "deriv c (Range lo hi) = (if lo \<le> c \<and> c \<le> hi then Eps else Never)"
| "deriv c (Cat r s) =
     (if nullable r then rxAlt (rxCat (deriv c r) s) (deriv c s) else rxCat (deriv c r) s)"
| "deriv c (Alt r s) = rxAlt (deriv c r) (deriv c s)"
| "deriv c (Star r) = rxCat (deriv c r) (Star r)"

fun rxFull :: "rx \<Rightarrow> jsstring \<Rightarrow> bool" where
  "rxFull r [] = nullable r"
| "rxFull r (c # cs) = rxFull (deriv c r) cs"

fun rxPrefix :: "rx \<Rightarrow> jsstring \<Rightarrow> bool" where
  "rxPrefix r [] = nullable r"
| "rxPrefix r (c # cs) = (nullable r \<or> rxPrefix (deriv c r) cs)"

text \<open>Abbreviations for the pattern syntax.\<close>

definition cls :: "string \<Rightarrow> rx" where
  "cls s = foldr (\<lambda>c r. rxAlt (Range (of_char c) (of_char c)) r) s Never"

definition cu :: "nat \<Rightarrow> rx" where
  "cu n = Range n n"

definition otherCase :: "nat \<Rightarrow> nat" where
  "otherCase c = (if isUpper c then c + 32 else if isLower c then c - 32 else c)"

definition letter :: "string \<Rightarrow> rx" where
  "letter s = foldr (\<lambda>c r. rxAlt (Range (of_char c) (of_char c))
                    (rxAlt (Range (otherCase (of_char c)) (otherCase (of_char c))) r)) s Never"

definition lit :: "string \<Rightarrow> rx" where
  "lit s = foldr (\<lambda>c r. Cat (Range (of_char c) (of_char c)) r) s Eps"

definition litCI :: "string \<Rightarrow> rx" where
  "litCI s = foldr (\<lambda>c r. Cat (letter [c]) r) s Eps"

definition rxDigit :: rx where
  "rxDigit = Range 48 57"

definition rxSpace :: rx where
  "rxSpace = foldr (\<lambda>(lo, hi) r. Alt (Range lo hi) r)
     [(9, 13), (32, 32), (160, 160), (5760, 5760), (8192, 8202), (8232, 8233), (8239, 8239),
      (8287, 8287), (12288, 12288)] (Range 65279 65279)"

definition rxOpt :: "rx \<Rightarrow> rx" where
  "rxOpt r = Alt Eps r"

definition rxPlus :: "rx \<Rightarrow> rx" where
  "rxPlus r = Cat r (Star r)"

text \<open>\<^verbatim>\<open>r{m,n}\<close>.\<close>

fun rxRep :: "nat \<Rightarrow> nat \<Rightarrow> rx \<Rightarrow> rx" where
  "rxRep 0 0 r = Eps"
| "rxRep 0 (Suc n) r = Alt Eps (Cat r (rxRep 0 n r))"
| "rxRep (Suc m) n r = Cat r (rxRep m (n - 1) r)"

fun rxSeq :: "rx list \<Rightarrow> rx" where
  "rxSeq [] = Eps"
| "rxSeq [r] = r"
| "rxSeq (r # rs) = Cat r (rxSeq rs)"

fun rxAny :: "rx list \<Rightarrow> rx" where
  "rxAny [] = Never"
| "rxAny [r] = r"
| "rxAny (r # rs) = Alt r (rxAny rs)"

section \<open>normalizeText\<close>

text \<open>
  A global replacement \<^verbatim>\<open>s.replace(/c/g, rep)\<close> of one code unit by a string.
\<close>

definition replaceChar :: "nat \<Rightarrow> jsstring \<Rightarrow> jsstring \<Rightarrow> jsstring" where
  "replaceChar c rep s = concat (map (\<lambda>x. if x = c then rep else [x]) s)"

text \<open>
  A pattern letter against a code unit under the \<^verbatim>\<open>i\<close> flag, and a literal pattern
  against the start of a string.
\<close>

definition eqCI :: "nat \<Rightarrow> nat \<Rightarrow> bool" where
  "eqCI p c = (c = p \<or> (isLower p \<and> c + 32 = p) \<or> (isUpper p \<and> c = p + 32))"

fun startsWithCI :: "jsstring \<Rightarrow> jsstring \<Rightarrow> bool" where
  "startsWithCI s [] = True"
| "startsWithCI [] (p # ps) = False"
| "startsWithCI (c # cs) (p # ps) = (eqCI p c \<and> startsWithCI cs ps)"

text \<open>
  \<^verbatim>\<open>\b\<close> between two neighbouring positions: exactly one of the two is a word character;
  the positions before the start and after the end count as not a word character.
\<close>

definition isWordOpt :: "nat option \<Rightarrow> bool" where
  "isWordOpt c = (case c of None \<Rightarrow> False | Some x \<Rightarrow> isWordChar x)"

definition wordBoundary :: "nat option \<Rightarrow> nat option \<Rightarrow> bool" where
  "wordBoundary before after = (isWordOpt before \<noteq> isWordOpt after)"

definition headOpt :: "jsstring \<Rightarrow> nat option" where
  "headOpt s = (case s of [] \<Rightarrow> None | c # _ \<Rightarrow> Some c)"

text \<open>
  The literal \<open>pat\<close> matches at the start of \<open>s\<close>, where \<open>prev\<close> is the code unit before
  \<open>s\<close>; with \<open>wb\<close> the pattern is \<^verbatim>\<open>\bpat\b\<close>. (\<open>pat\<close> is not empty in any use.)
\<close>

definition litAt :: "bool \<Rightarrow> jsstring \<Rightarrow> nat option \<Rightarrow> jsstring \<Rightarrow> bool" where
  "litAt wb pat prev s =
     (startsWithCI s pat \<and>
      (\<not> wb \<or> (wordBoundary prev (headOpt s)
          \<and> wordBoundary (headOpt (drop (length pat - 1) s)) (headOpt (drop (length pat) s)))))"

text \<open>
  \<^verbatim>\<open>s.replace(/pat/gi, rep)\<close> for a literal pattern: the string is scanned from the left,
  a match is replaced and the scan goes on behind it. \<open>skip\<close> counts the code units of the
  last match that are still to be passed over.
\<close>

fun replaceLit :: "bool \<Rightarrow> jsstring \<Rightarrow> jsstring \<Rightarrow> nat \<Rightarrow> nat option \<Rightarrow> jsstring \<Rightarrow> jsstring" where
  "replaceLit wb pat rep skip prev [] = []"
| "replaceLit wb pat rep (Suc k) prev (c # cs) = replaceLit wb pat rep k (Some c) cs"
| "replaceLit wb pat rep 0 prev (c # cs) =
     (if litAt wb pat prev (c # cs)
      then rep @ replaceLit wb pat rep (length pat - 1) (Some c) cs
      else c # replaceLit wb pat rep 0 (Some c) cs)"

text \<open>\<^verbatim>\<open>s.replace(/\s+/g, ' ')\<close>: every maximal run of whitespace becomes one space.\<close>

fun collapseWs :: "bool \<Rightarrow> jsstring \<Rightarrow> jsstring" where
  "collapseWs inRun [] = []"
| "collapseWs inRun (c # cs) =
     (if isSpace c then (if inRun then collapseWs True cs else 32 # collapseWs True cs)
      else c # collapseWs False cs)"

text \<open>
  \<^verbatim>\<open>
  const normalizeText = (text) => text.toLowerCase()
      .replace(/\u00df/g, 'ss').replace(/\u00e4/g, 'ae').replace(/\u00f6/g, 'oe').replace(/\u00fc/g, 'ue')
      .replace(/str\./gi, 'strasse').replace(/\bstr\b/gi, 'strasse')
      .replace(/[\r\n,\-\.]/g, ' ').replace(/\s+/g, ' ').trim()
  \<close>
  (The source has the four letters themselves; they are written here by their code points: the sharp s is U+00DF (223), the umlauts are U+00E4 (228), U+00F6 (246), U+00FC (252).)
\<close>

definition normalizeText :: "jsstring \<Rightarrow> jsstring" where
  "normalizeText text' =
     trim (collapseWs False
       (map (\<lambda>c. if c = 13 \<or> c = 10 \<or> c = 44 \<or> c = 45 \<or> c = 46 then 32 else c)
         (replaceLit True (js ''str'') (js ''strasse'') 0 None
           (replaceLit False (js ''str.'') (js ''strasse'') 0 None
             (replaceChar 252 (js ''ue'')
               (replaceChar 246 (js ''oe'')
                 (replaceChar 228 (js ''ae'')
                   (replaceChar 223 (js ''ss'')
                     (toLowerCase text')))))))))"

section \<open>The static whitelists\<close>

text \<open>
  The three constant arrays of the route, entry by entry. A letter outside ASCII is
  written as its code unit: 228 is the umlaut a, 246 the umlaut o, 220 and 252 the umlaut
  U and u, 223 the sharp s.
\<close>

definition WHITELISTED_ADDRESSES :: "jsstring list" where
  "WHITELISTED_ADDRESSES =
    [js ''Deutsche Grundst'' @ [252] @ js ''cksauktionen AG, Kurf'' @ [252] @ js ''rstendamm 65, 10707 Berlin'',
     js ''S'' @ [228] @ js ''chsische Grundst'' @ [252] @ js ''cksauktionen AG, Hohe Stra'' @ [223] @ js ''e 12, 01069 Dresden'',
     js ''WESTDEUTSCHE GRUNDST'' @ [220] @ js ''CKSAUKTIONEN AG, Apostelnstra'' @ [223] @ js ''e 9, 50667 K'' @ [246] @ js ''ln'',
     js ''Norddeutsche Grundst'' @ [252] @ js ''cksauktionen AG, Ernst-Barlach-Strasse 4, 18055 Rostock'',
     js ''PLETTNER & BRECHT IMMOBILIEN GMBH, Kirschenallee 20, 14050 Berlin'',
     js ''Kurf'' @ [252] @ js ''rstendamm 65, 10707 Berlin'',
     js ''Kurf'' @ [252] @ js ''rstendamm 65'',
     js ''10707 Berlin'',
     js ''Hohe Stra'' @ [223] @ js ''e 12, 01069 Dresden'',
     js ''Hohe Stra'' @ [223] @ js ''e 12'',
     js ''01069 Dresden'',
     js ''Apostelnstra'' @ [223] @ js ''e 9, 50667 K'' @ [246] @ js ''ln'',
     js ''Apostelnstra'' @ [223] @ js ''e 9'',
     js ''50667 K'' @ [246] @ js ''ln'',
     js ''Ernst-Barlach-Strasse 4, 18055 Rostock'',
     js ''Ernst-Barlach-Strasse 4'',
     js ''18055 Rostock'',
     js ''Kirschenallee 20, 14050 Berlin'',
     js ''Kirschenallee 20'',
     js ''14050 Berlin'']"

definition WHITELISTED_ORGANIZATIONS :: "jsstring list" where
  "WHITELISTED_ORGANIZATIONS =
    [js ''Deutsche Grundst'' @ [252] @ js ''cksauktionen AG'',
     js ''S'' @ [228] @ js ''chsische Grundst'' @ [252] @ js ''cksauktionen AG'',
     js ''WESTDEUTSCHE GRUNDST'' @ [220] @ js ''CKSAUKTIONEN AG'',
     js ''Norddeutsche Grundst'' @ [252] @ js ''cksauktionen AG'',
     js ''PLETTNER & BRECHT IMMOBILIEN GMBH'']"

definition WHITELISTED_ROLE_WORDS :: "jsstring list" where
  "WHITELISTED_ROLE_WORDS =
    [js ''Anwesenden'',
     js ''Ausbauberechtigten'',
     js ''Ausbauberechtigte'',
     js ''Beauftragte'',
     js ''Bevollm'' @ [228] @ js ''chtigten'',
     js ''Erschienenen'',
     js ''Erbengemeinschaft'',
     js ''Fachmann'',
     js ''teilende Eigent'' @ [252] @ js ''mer'',
     js ''Eigent'' @ [252] @ js ''mer'',
     js ''Eigent'' @ [252] @ js ''mern'',
     js ''Notarin'',
     js ''Notar'',
     js ''Notaramtes'',
     js ''Nutzungsberechtigten'',
     js ''Sondernutzungsberechtigte'',
     js ''Gesch'' @ [228] @ js ''ftsf'' @ [252] @ js ''hrer'',
     js ''Inhaber'',
     js ''Miterben'',
     js ''Mieter'',
     js ''Mieterin'',
     js ''Beteiligten'',
     js ''Miteigent'' @ [252] @ js ''mer'',
     js ''Teileigent'' @ [252] @ js ''mer'',
     js ''Wohnungseigent'' @ [252] @ js ''mer'',
     js ''Wohnungseigent'' @ [252] @ js ''mers'',
     js ''Verwalters'',
     js ''Verwalter'',
     js ''Verwalterin'',
     js ''Vermieter'',
     js ''Vermieterin'',
     js ''Versammlungsleiter'',
     js ''Dritter'',
     js ''Zahlender'',
     js ''Vermieters'',
     js ''Mieters'',
     js ''Dritte'',
     js ''Bewohner'',
     js ''Geb'' @ [228] @ js ''ude'',
     js ''P'' @ [228] @ js ''chter'',
     js ''P'' @ [228] @ js ''chters'',
     js ''Verp'' @ [228] @ js ''chter'',
     js ''Verp'' @ [228] @ js ''chters'',
     js ''Alleinp'' @ [228] @ js ''chter'',
     js ''Nachfolgep'' @ [228] @ js ''chter'',
     js ''Grundst'' @ [252] @ js ''ck'',
     js ''Betriebsnachfolger'',
     js ''Landwirtschaftskammer'',
     js ''Parteien'',
     js ''Pachtvertrag'',
     js ''Beh'' @ [246] @ js ''rde'',
     js ''Sachverst'' @ [228] @ js ''ndigen'',
     js ''Vergleichswerte Endenergie'',
     js ''Vergleichswerte'',
     js ''Endenergie'',
     js ''Endenergiebedarf'',
     js ''Prim'' @ [228] @ js ''renergiebedarf'',
     js ''Energieeffizienzklasse'',
     js ''Energieausweis'',
     js ''Energiebedarf'',
     js ''Energiekennwert'',
     js ''EEW'' @ [228] @ js ''rmeG'',
     js ''EnEV'',
     js ''W'' @ [228] @ js ''rmeschutz'',
     js ''Anforderungswert'',
     js ''Ersatzma'' @ [223] @ js ''nahmen'',
     js ''Erl'' @ [228] @ js ''uterungen'',
     js ''Berechnungsverfahren'',
     js ''Pflichtangabe'',
     js ''Immobilienanzeigen'',
     js ''Angaben zum'',
     js ''Dritten'',
     js ''behindertengerechte'',
     js ''Erf'' @ [252] @ js ''llungsgehilfen'',
     js ''Beauftragten'']"

section \<open>isWhitelisted\<close>

text \<open>
  \<^verbatim>\<open>new RegExp(`\\b${normalizedRole}\\b`, 'i').test(normalizedEntity)\<close>: the pattern is
  built from a normalized role word. Every normalized role word consists of the letters
  a to z and spaces (lemma \<open>role_words_plain\<close>), so it stands for itself in the pattern,
  and the test is a search for the literal between two word boundaries.
\<close>

fun searchLit :: "bool \<Rightarrow> jsstring \<Rightarrow> nat option \<Rightarrow> jsstring \<Rightarrow> bool" where
  "searchLit wb pat prev [] = litAt wb pat prev []"
| "searchLit wb pat prev (c # cs) = (litAt wb pat prev (c # cs) \<or> searchLit wb pat (Some c) cs)"

text \<open>
  The body of the loop over \<^verbatim>\<open>WHITELISTED_ROLE_WORDS\<close>: its four tests, each of which
  returns true. \<^verbatim>\<open>normalizedEntity.split(' ')\<close> is never empty, so
  \<^verbatim>\<open>entityWords.length === 1 && entityWords[0] === normalizedRole\<close> says that the list
  is the one word.
\<close>

definition roleMatch :: "jsstring \<Rightarrow> jsstring \<Rightarrow> bool" where
  "roleMatch normalizedEntity roleWord =
     (let normalizedRole = normalizeText roleWord;
          entityWords = splitSpace normalizedEntity
      in normalizedEntity = normalizedRole
         \<or> entityWords = [normalizedRole]
         \<or> List.member entityWords normalizedRole
         \<or> searchLit True normalizedRole None normalizedEntity)"

text \<open>The body of the loop over \<^verbatim>\<open>WHITELISTED_ORGANIZATIONS\<close>.\<close>

definition orgMatch :: "jsstring \<Rightarrow> jsstring \<Rightarrow> bool" where
  "orgMatch normalizedEntity org =
     (let normalizedOrg = normalizeText org
      in normalizedEntity = normalizedOrg
         \<or> includesStr normalizedEntity normalizedOrg
         \<or> includesStr normalizedOrg normalizedEntity)"

text \<open>
  The body of the loop over \<^verbatim>\<open>WHITELISTED_ADDRESSES\<close>. When the address has no part
  longer than two, \<^verbatim>\<open>matchRatio\<close> is \<^verbatim>\<open>0 / 0\<close>, NaN, and the comparison is false; the
  quotient of the model is 0 there, and the comparison is false as well.
\<close>

definition addressMatch :: "jsstring \<Rightarrow> jsstring \<Rightarrow> bool" where
  "addressMatch normalizedEntity address =
     (let normalizedAddress = normalizeText address
      in includesStr normalizedEntity normalizedAddress
         \<or> includesStr normalizedAddress normalizedEntity
         \<or> (let addressParts = filter (\<lambda>p. length p > 2) (splitSpace normalizedAddress);
                 entityParts = filter (\<lambda>p. length p > 2) (splitSpace normalizedEntity);
                 matchingParts = filter (\<lambda>part. list_ex (\<lambda>entityPart.
                     entityPart = part \<or> includesStr entityPart part \<or> includesStr part entityPart)
                   entityParts) addressParts;
                 matchRatio = real (length matchingParts) / real (length addressParts)
             in matchRatio \<ge> 0.5 \<and> length matchingParts \<ge> 2))"

definition isWhitelisted :: "jsstring \<Rightarrow> bool" where
  "isWhitelisted entityText =
     (let normalizedEntity = normalizeText entityText
      in list_ex (roleMatch normalizedEntity) WHITELISTED_ROLE_WORDS
         \<or> list_ex (orgMatch normalizedEntity) WHITELISTED_ORGANIZATIONS
         \<or> list_ex (addressMatch normalizedEntity) WHITELISTED_ADDRESSES)"

section \<open>The entity filter\<close>

text \<open>
  \<^verbatim>\<open>nums.every((n, i) => i === 0 || R(nums[i - 1], n))\<close>: the relation holds between
  every element and the one before it.
\<close>

fun everyAdjacent :: "(int \<Rightarrow> int \<Rightarrow> bool) \<Rightarrow> int list \<Rightarrow> bool" where
  "everyAdjacent R [] = True"
| "everyAdjacent R [n] = True"
| "everyAdjacent R (p # n # ns) = (R p n \<and> everyAdjacent R (n # ns))"

text \<open>
  The energy-scale test of the filter callback on the cleaned entity text:
  \<^verbatim>\<open>numberParts.length >= 3\<close>, all parts parse to a number between 0 and 300, and the
  numbers are strictly increasing or evenly spaced by 25 or 50. \<^verbatim>\<open>nums\<close> is only
  computed when every part parses, so no NaN is among them.
\<close>

definition isEnergyScale :: "jsstring \<Rightarrow> bool" where
  "isEnergyScale entityTextClean =
     (let numberParts = filter (\<lambda>s. length s > 0) (splitWs entityTextClean)
      in length numberParts \<ge> 3 \<and>
         (let allAreSmallNumbers = list_all (\<lambda>part.
                case parseInt part of None \<Rightarrow> False | Some num \<Rightarrow> num \<ge> 0 \<and> num \<le> 300)
                numberParts
          in allAreSmallNumbers \<and>
             (let nums = List.map_filter parseInt numberParts;
                  isIncrementing = everyAdjacent (\<lambda>p n. n > p) nums;
                  firstDiff = (if length nums \<ge> 2 then nums ! 1 - nums ! 0 else 0);
                  isEvenlySpaced = ((firstDiff = 25 \<or> firstDiff = 50)
                     \<and> everyAdjacent (\<lambda>p n. n - p = firstDiff) nums)
              in isIncrementing \<or> isEvenlySpaced)))"

text \<open>
  The three tests on an entity of category Organization:
  \<^verbatim>\<open>/^[A-H]\+?$/i\<close>, \<^verbatim>\<open>/^\d{1,3}$/\<close> with a value between 0 and 300, and a length of at
  most 2.
\<close>

definition isOrganizationNoise :: "jsstring \<Rightarrow> bool" where
  "isOrganizationNoise entityTextClean =
     (rxFull (Cat (letter ''ABCDEFGH'') (rxOpt (cls ''+''))) entityTextClean
      \<or> (rxFull (rxRep 1 3 rxDigit) entityTextClean
          \<and> (case parseInt entityTextClean of None \<Rightarrow> False | Some num \<Rightarrow> num \<ge> 0 \<and> num \<le> 300))
      \<or> length entityTextClean \<le> 2)"

text \<open>
  The callback of \<^verbatim>\<open>entities.filter(entity => ...)\<close>: true keeps the entity. The steps
  are the static whitelist, the Organization tests, the energy-scale test, and, when an
  \<^verbatim>\<open>excludeAddress\<close> was sent with the request, the dynamic exclusion. \<^verbatim>\<open>!excludeAddress\<close>
  holds for a missing and for an empty string. Methods 1 to 4 of the dynamic exclusion
  (substring, similarity, part ratio, address components) are not unfolded here: they
  are the parameter \<open>dynamicMatch\<close>, applied to the entity text and the address, true
  when one of the methods excludes the entity.
\<close>

definition keepEntity :: "(jsstring \<Rightarrow> jsstring \<Rightarrow> bool) \<Rightarrow> jsstring option \<Rightarrow> PIIEntity \<Rightarrow> bool" where
  "keepEntity dynamicMatch excludeAddress entity =
     (if isWhitelisted (e_text entity) then False
      else
        let entityTextClean = trim (map (\<lambda>c. if c = 10 \<or> c = 13 then 32 else c) (e_text entity))
        in if e_category entity = js ''Organization'' \<and> isOrganizationNoise entityTextClean then False
           else if isEnergyScale entityTextClean then False
           else (case excludeAddress of
                   None \<Rightarrow> True
                 | Some address \<Rightarrow>
                     (if address = [] then True else \<not> dynamicMatch (e_text entity) address)))"

definition filteredEntities :: "(jsstring \<Rightarrow> jsstring \<Rightarrow> bool) \<Rightarrow> jsstring option \<Rightarrow> PIIEntity list \<Rightarrow> PIIEntity list" where
  "filteredEntities dynamicMatch excludeAddress entities =
     filter (keepEntity dynamicMatch excludeAddress) entities"

section \<open>The OCR result and the redaction regions\<close>

text \<open>
  \<^verbatim>\<open>DocIntelWord\<close>, \<^verbatim>\<open>DocIntelPage\<close>, \<^verbatim>\<open>DocIntelStyle\<close>, the \<^verbatim>\<open>analyzeResult\<close> and
  \<^verbatim>\<open>RedactionCoordinate\<close>. A polygon is the array \<^verbatim>\<open>[x1, y1, x2, y2, x3, y3, x4, y4]\<close>;
  \<^verbatim>\<open>polygon[i]\<close> is \<open>polygon ! i\<close>, which is the JavaScript value for \<open>i\<close> below the
  length of the array only (JavaScript reads \<^verbatim>\<open>undefined\<close> behind the end and computes
  NaN from it), so the theorems about coordinates are stated for polygons of eight
  numbers. \<^verbatim>\<open>isHandwritten\<close> and \<^verbatim>\<open>styles\<close> are optional.
\<close>

record Span =
  s_offset :: int
  s_length :: int

record DocIntelWord =
  w_content :: jsstring
  w_polygon :: "real list"
  w_span :: Span
  w_confidence :: real

datatype PageUnit = pixel | inch

record DocIntelPage =
  p_pageNumber :: int
  p_angle :: real
  p_width :: real
  p_height :: real
  p_unit :: PageUnit
  p_words :: "DocIntelWord list"

record DocIntelStyle =
  st_isHandwritten :: "bool option"
  st_spans :: "Span list"
  st_confidence :: real

record AnalyzeResult =
  ar_content :: jsstring
  ar_pages :: "DocIntelPage list"
  ar_styles :: "DocIntelStyle list option"

record RedactionCoordinate =
  r_pageIndex :: nat
  r_x :: real
  r_y :: real
  r_width :: real
  r_height :: real
  r_text :: "jsstring option"
  r_category :: "jsstring option"

section \<open>convertEntitiesToRedactionCoordinates\<close>

text \<open>
  \<^verbatim>\<open>pages.forEach((page, pageIndex) => page.words.forEach(word => allWords.push({word, pageIndex})))\<close>
  and the stable sort by \<^verbatim>\<open>word.span.offset\<close>.
\<close>

definition allWords :: "DocIntelPage list \<Rightarrow> (DocIntelWord \<times> nat) list" where
  "allWords pages =
     sort_key (\<lambda>item. s_offset (w_span (fst item)))
       (concat (map (\<lambda>(pageIndex, page). map (\<lambda>word. (word, pageIndex)) (p_words page))
                    (enumerate 0 pages)))"

text \<open>
  The words of an entity:
  \<^verbatim>\<open>allWords.filter(item => wordStart < entityEnd && wordEnd > entityStart)\<close>.
\<close>

definition relevantWords :: "PIIEntity \<Rightarrow> (DocIntelWord \<times> nat) list \<Rightarrow> (DocIntelWord \<times> nat) list" where
  "relevantWords entity items =
     (let entityStart = e_offset entity;
          entityEnd = e_offset entity + e_length entity
      in filter (\<lambda>item.
           let wordStart = s_offset (w_span (fst item));
               wordEnd = wordStart + s_length (w_span (fst item))
           in wordStart < entityEnd \<and> wordEnd > entityStart) items)"

text \<open>
  The body of \<^verbatim>\<open>relevantWords.forEach(item => ...)\<close>: the bounding box of the four
  corners, the padding of 0.02 with the left and upper edge held at 0, and the
  conversion to points on a page measured in inches.
\<close>

definition wordRedaction :: "DocIntelPage list \<Rightarrow> PIIEntity \<Rightarrow> DocIntelWord \<times> nat \<Rightarrow> RedactionCoordinate" where
  "wordRedaction pages entity item =
     (let azurePage = pages ! snd item;
          polygon = w_polygon (fst item);
          xCoords = [polygon ! 0, polygon ! 2, polygon ! 4, polygon ! 6];
          yCoords = [polygon ! 1, polygon ! 3, polygon ! 5, polygon ! 7];
          PADDING_INCH = 0.02;
          minX = max 0 (Min (set xCoords) - PADDING_INCH);
          minY = max 0 (Min (set yCoords) - PADDING_INCH);
          maxX = Max (set xCoords) + PADDING_INCH;
          maxY = Max (set yCoords) + PADDING_INCH;
          x = minX;
          y = minY;
          w = maxX - minX;
          h = maxY - minY;
          k = (if p_unit azurePage = inch then 72 else 1)
      in \<lparr>r_pageIndex = snd item, r_x = x * k, r_y = y * k, r_width = w * k, r_height = h * k,
          r_text = Some (e_text entity), r_category = Some (e_category entity)\<rparr>)"

definition convertEntitiesToRedactionCoordinates ::
    "PIIEntity list \<Rightarrow> AnalyzeResult \<Rightarrow> RedactionCoordinate list" where
  "convertEntitiesToRedactionCoordinates entities docIntelResult =
     concat (map (\<lambda>entity.
         map (wordRedaction (ar_pages docIntelResult) entity)
             (relevantWords entity (allWords (ar_pages docIntelResult))))
       entities)"

section \<open>detectSignaturesFromStyles, the pass over the handwritten styles\<close>

text \<open>
  The labels, in lower case. The thirteenth one is the German word for the keeper of the
  minutes; its u with umlaut is the code unit 252.
\<close>

definition signatureLabels :: "jsstring list" where
  "signatureLabels =
     [js ''unterschrift'', js ''unterschriften'', js ''signature'', js ''signatures'',
      js ''signed'', js ''datum/unterschrift'', js ''unterzeichner'', js ''unterzeichnet'',
      js ''gezeichnet'', js ''gez.'', js ''i.a.'', js ''ppa.'',
      js ''protokollf'' @ [252] @ js ''hrer'', js ''zeuge'']"

text \<open>
  \<^verbatim>\<open>formFieldPatterns\<close>, in the order of the source. A pattern that ends in \<^verbatim>\<open>$\<close> has to
  match the whole text (\<open>Whole\<close>), the two patterns for kWh and for square or cubic
  metres only its start (\<open>Start\<close>). The euro sign is code unit 8364, the check mark 10003,
  the ballot cross 10007, superscript two and three 178 and 179.
\<close>

datatype pattern = Whole rx | Start rx

fun test :: "pattern \<Rightarrow> jsstring \<Rightarrow> bool" where
  "test (Whole r) s = rxFull r s"
| "test (Start r) s = rxPrefix r s"

definition formFieldPatterns :: "pattern list" where
  "formFieldPatterns =
     [Whole (rxPlus (rxAny [rxDigit, rxSpace, cls ''.,'', cu 8364, cls ''$%''])),
      Whole (rxSeq [rxRep 1 2 rxDigit, cls ''.,'', rxRep 2 2 rxDigit, cls ''.,'', rxRep 4 4 rxDigit]),
      Whole (rxAny [cls ''xX'', cu 10003, cu 10007]),
      Whole (litCI ''ja''),
      Whole (litCI ''nein''),
      Whole (rxSeq [litCI ''EU'', rxOpt (letter ''R'')]),
      Whole (rxRep 5 5 rxDigit),
      Start (rxSeq [rxPlus rxDigit, rxOpt (cls ''.,''), Star rxDigit, Star rxSpace, litCI ''kWh'']),
      Start (rxSeq [rxPlus rxDigit, rxOpt (cls ''.,''), Star rxDigit, Star rxSpace, letter ''m'',
                    rxAny [cu 178, cls ''2'', cu 179, cls ''3'']]),
      Whole (rxSeq [rxPlus rxDigit, rxOpt (cls ''.,''), Star rxDigit, Star rxSpace, cls ''%'']),
      Whole (Cat (letter ''ABCDEFGH'') (rxOpt (cls ''+''))),
      Whole (Cat (rxOpt (cls ''>'')) (rxPlus rxDigit)),
      Whole (rxRep 1 3 rxDigit),
      Whole (rxRep 1 5 (Range 65 90))]"

definition isFormField :: "jsstring \<Rightarrow> bool" where
  "isFormField handwrittenText = list_ex (\<lambda>p. test p handwrittenText) formFieldPatterns"

text \<open>
  The entries of \<^verbatim>\<open>matchingWords\<close>:
  \<^verbatim>\<open>{ word, pageIndex: pageIdx, pageHeight: page.height, pageUnit: page.unit || 'inch' }\<close>
  (\<^verbatim>\<open>page.unit\<close> is one of the two units, so the default is never taken).
\<close>

record MatchingWord =
  mw_word :: DocIntelWord
  mw_pageIndex :: nat
  mw_pageHeight :: real
  mw_pageUnit :: PageUnit

definition matchingWords :: "DocIntelPage list \<Rightarrow> Span \<Rightarrow> MatchingWord list" where
  "matchingWords pages span' =
     concat (map (\<lambda>(pageIdx, page).
         map (\<lambda>word. \<lparr>mw_word = word, mw_pageIndex = pageIdx, mw_pageHeight = p_height page,
                         mw_pageUnit = p_unit page\<rparr>)
           (filter (\<lambda>word.
               let wordStart = s_offset (w_span word);
                   wordEnd = s_offset (w_span word) + s_length (w_span word);
                   spanStart = s_offset span';
                   spanEnd = s_offset span' + s_length span'
               in wordStart < spanEnd \<and> wordEnd > spanStart) (p_words page)))
       (enumerate 0 pages))"

text \<open>
  \<^verbatim>\<open>const handwrittenText = content.substring(span.offset, span.offset + span.length).trim()\<close>.
\<close>

definition handwrittenTextOf :: "jsstring \<Rightarrow> Span \<Rightarrow> jsstring" where
  "handwrittenTextOf content span' =
     trim (substring content (s_offset span') (s_offset span' + s_length span'))"

text \<open>
  The textual signal: a label occurs in the lower-cased text of the span and of 150
  characters on either side.
\<close>

definition isNearSignatureLabel :: "jsstring \<Rightarrow> Span \<Rightarrow> bool" where
  "isNearSignatureLabel content span' =
     (let contextRadius = 150;
          contextStart = max 0 (s_offset span' - contextRadius);
          contextEnd = min (int (length content)) (s_offset span' + s_length span' + contextRadius);
          context = toLowerCase (substring content contextStart contextEnd)
      in list_ex (\<lambda>label. includesStr context label) signatureLabels)"

text \<open>
  The spatial signal: a word of the page of the first matching word contains a label and
  lies less than 2.0 above or below and less than 4.0 left or right of it (centres of the
  first edge in x, of the first and third corner in y).
\<close>

definition isNearLabelSpatially :: "DocIntelPage list \<Rightarrow> MatchingWord list \<Rightarrow> bool" where
  "isNearLabelSpatially pages mws =
     (let handwrittenPageIdx = mw_pageIndex (mws ! 0);
          handwrittenY = (w_polygon (mw_word (mws ! 0)) ! 1 + w_polygon (mw_word (mws ! 0)) ! 5) / 2;
          handwrittenX = (w_polygon (mw_word (mws ! 0)) ! 0 + w_polygon (mw_word (mws ! 0)) ! 2) / 2;
          samePage = pages ! handwrittenPageIdx
      in list_ex (\<lambda>pageWord.
           let wordText = toLowerCase (w_content pageWord);
               isLabel = list_ex (\<lambda>label. includesStr wordText label) signatureLabels;
               labelY = (w_polygon pageWord ! 1 + w_polygon pageWord ! 5) / 2;
               labelX = (w_polygon pageWord ! 0 + w_polygon pageWord ! 2) / 2;
               yDistance = \<bar>handwrittenY - labelY\<bar>;
               xDistance = \<bar>handwrittenX - labelX\<bar>
           in isLabel \<and> yDistance < 2.0 \<and> xDistance < 4.0) (p_words samePage))"

text \<open>
  \<^verbatim>\<open>avgWordY > pageHeight * 0.75\<close>, with the mean of the y centres of the matching words
  and the height of the page of the first one.
\<close>

definition isInBottomPortion :: "MatchingWord list \<Rightarrow> bool" where
  "isInBottomPortion mws =
     (let avgWordY = foldl (\<lambda>sum mw. sum + (w_polygon (mw_word mw) ! 1 + w_polygon (mw_word mw) ! 5) / 2)
                           0 mws / real (length mws);
          pageHeight = mw_pageHeight (mws ! 0)
      in avgWordY > pageHeight * 0.75)"

text \<open>
  The coordinates at the even and at the odd indices of a polygon
  (\<^verbatim>\<open>for (let i = 0; i < polygon.length; i += 2)\<close>, and from 1).
\<close>

fun evens :: "'a list \<Rightarrow> 'a list" where
  "evens [] = []"
| "evens [x] = [x]"
| "evens (x # y # zs) = x # evens zs"

definition odds :: "'a list \<Rightarrow> 'a list" where
  "odds xs = evens (tl xs)"

text \<open>
  The region of an accepted span: the box of all coordinates of all matching words, the
  padding of 0.05 with the left and upper edge held at 0, the conversion to points, and
  then width and height. (With no coordinate at all the box of the source runs from
  Infinity to -Infinity; every polygon of an OCR result has its eight numbers.)
\<close>

definition signatureRegion :: "jsstring \<Rightarrow> MatchingWord list \<Rightarrow> RedactionCoordinate" where
  "signatureRegion handwrittenText mws =
     (let xs = concat (map (\<lambda>mw. evens (w_polygon (mw_word mw))) mws);
          ys = concat (map (\<lambda>mw. odds (w_polygon (mw_word mw))) mws);
          signaturePageIndex = mw_pageIndex (mws ! 0);
          padding = 0.05;
          minX = max 0 (Min (set xs) - padding);
          minY = max 0 (Min (set ys) - padding);
          maxX = Max (set xs) + padding;
          maxY = Max (set ys) + padding;
          pageUnit = mw_pageUnit (mws ! 0);
          k = (if pageUnit = inch then 72 else 1);
          width = maxX * k - minX * k;
          height = maxY * k - minY * k
      in \<lparr>r_pageIndex = signaturePageIndex, r_x = minX * k, r_y = minY * k,
          r_width = width, r_height = height,
          r_text = Some (js ''[Signature: '' @ substring handwrittenText 0 30 @ js ''...]''),
          r_category = Some (js ''Signature'')\<rparr>)"

text \<open>
  The body of the loop over the spans of a handwritten style: \<open>None\<close> is a \<^verbatim>\<open>continue\<close>
  or the branch "not a signature", \<open>Some\<close> the region pushed to \<^verbatim>\<open>signatures\<close>. The second
  length test ("Re-check min length with spatial proximity") is kept as the source has
  it, after the first one.
\<close>

definition signatureOfSpan :: "jsstring \<Rightarrow> DocIntelPage list \<Rightarrow> Span \<Rightarrow> RedactionCoordinate option" where
  "signatureOfSpan content pages span' =
     (let handwrittenText = handwrittenTextOf content span';
          nearText = isNearSignatureLabel content span';
          minLength = (if nearText then 2 else 3)
      in if length handwrittenText < minLength then None
         else if isFormField handwrittenText then None
         else
           let mws = matchingWords pages span'
           in if length mws = 0 then None
              else
                let nearSpatial = isNearLabelSpatially pages mws;
                    isNearLabel = (nearText \<or> nearSpatial)
                in if \<not> (\<not> nearText \<and> nearSpatial \<and> length handwrittenText \<ge> 2)
                      \<and> length handwrittenText < (if isNearLabel then 2 else 3)
                   then None
                   else
                     let isLikelySignature =
                           (isNearLabel \<or> (isInBottomPortion mws \<and> length handwrittenText \<ge> 5))
                     in if isLikelySignature then Some (signatureRegion handwrittenText mws)
                        else None)"

text \<open>
  \<^verbatim>\<open>const handwrittenStyles = styles.filter(style => style.isHandwritten === true)\<close> and
  the two loops; \<^verbatim>\<open>docIntelResult.styles || []\<close> for the missing array.
\<close>

definition handwrittenSignatures :: "AnalyzeResult \<Rightarrow> RedactionCoordinate list" where
  "handwrittenSignatures docIntelResult =
     (let styles = (case ar_styles docIntelResult of None \<Rightarrow> [] | Some s \<Rightarrow> s);
          handwrittenStyles = filter (\<lambda>style. st_isHandwritten style = Some True) styles
      in List.map_filter (signatureOfSpan (ar_content docIntelResult) (ar_pages docIntelResult))
           (concat (map st_spans handwrittenStyles)))"

section \<open>detectPII\<close>

text \<open>
  The PII service is a collaborator: \<open>post\<close> stands for
  \<^verbatim>\<open>await axios.post(url, requestBody, ...)\<close> as a function of the document of the request
  (its id, the language and the text). A reply is a rejected promise (\<open>Failed\<close> with the
  message), a response without a document in \<^verbatim>\<open>results.documents\<close> (\<open>NoDocuments\<close>), or
  a response whose first document has the entities (\<^verbatim>\<open>documents[0].entities || []\<close>).
  The id is \<^verbatim>\<open>'1'\<close> for the single request and \<^verbatim>\<open>`chunk-${chunkNum}`\<close> for a chunk.
\<close>

datatype DocumentId = Single | Chunk nat

datatype AzureReply = Failed jsstring | NoDocuments | Documents "PIIEntity list"

datatype Error = Error jsstring

definition CHUNK_SIZE :: nat where
  "CHUNK_SIZE = 5000"

text \<open>
  The loop \<^verbatim>\<open>for (let offset = 0; offset < text.length; offset += CHUNK_SIZE)\<close>; the
  result is what the iterations from \<open>offset\<close> on push to \<^verbatim>\<open>allEntities\<close>. A failed
  request is caught in the loop ("Continue processing other chunks even if one fails")
  and pushes nothing.
\<close>

function chunkLoop :: "(DocumentId \<Rightarrow> jsstring \<Rightarrow> jsstring \<Rightarrow> AzureReply) \<Rightarrow> jsstring \<Rightarrow> jsstring \<Rightarrow> nat \<Rightarrow> PIIEntity list" where
  "chunkLoop post language text' offset =
     (if offset < length text' then
        (let chunk = substring text' (int offset) (int offset + int CHUNK_SIZE);
             chunkNum = offset div CHUNK_SIZE + 1
         in (case post (Chunk chunkNum) language chunk of
               Documents chunkEntities \<Rightarrow>
                 map (\<lambda>entity. entity\<lparr>e_offset := e_offset entity + int offset\<rparr>) chunkEntities
             | NoDocuments \<Rightarrow> []
             | Failed message \<Rightarrow> [])
            @ chunkLoop post language text' (offset + CHUNK_SIZE))
      else [])"
  by pat_completeness auto
termination
  by (relation "measure (\<lambda>(post, language, text', offset). length text' - offset)")
     (auto simp add: CHUNK_SIZE_def)

text \<open>
  \<^verbatim>\<open>detectPII\<close>: a text of at most \<^verbatim>\<open>CHUNK_SIZE\<close> characters is sent in one request, and
  a failure of that request is rethrown
  (\<^verbatim>\<open>throw new Error(`Azure PII Detection failed: ${...}`)\<close>); a longer text goes through
  the loop. \<open>Inl\<close> is the thrown error.
\<close>

definition detectPII :: "(DocumentId \<Rightarrow> jsstring \<Rightarrow> jsstring \<Rightarrow> AzureReply) \<Rightarrow> jsstring \<Rightarrow> jsstring \<Rightarrow> Error + PIIEntity list" where
  "detectPII post language text' =
     (if length text' \<le> CHUNK_SIZE then
        (case post Single language text' of
           Documents entities \<Rightarrow> Inr entities
         | NoDocuments \<Rightarrow> Inr []
         | Failed message \<Rightarrow> Inl (Error (js ''Azure PII Detection failed: '' @ message)))
      else Inr (chunkLoop post language text' 0))"

section \<open>The phone-number detector of detectCustomPatterns\<close>

text \<open>
  \<^verbatim>\<open>/\b(\+?\d{1,3}[\s\-]?\(?\d{2,4}\)?[\s\-]?\d{3,4}[\s\-]?\d{3,4})\b/g\<close>, without the two
  word boundaries: the strings the group can capture.
\<close>

definition phonePattern :: rx where
  "phonePattern =
     rxSeq [rxOpt (cls ''+''), rxRep 1 3 rxDigit, rxOpt (Alt rxSpace (cls ''-'')),
            rxOpt (cls ''(''), rxRep 2 4 rxDigit, rxOpt (cls '')''),
            rxOpt (Alt rxSpace (cls ''-'')), rxRep 3 4 rxDigit,
            rxOpt (Alt rxSpace (cls ''-'')), rxRep 3 4 rxDigit]"

text \<open>
  The body of the loop for one match: \<open>phoneCandidate\<close> is \<^verbatim>\<open>match[1]\<close>, \<open>index\<close> is
  \<^verbatim>\<open>match.index\<close>; \<open>None\<close> is a \<^verbatim>\<open>continue\<close>, \<open>Some\<close> the entity pushed.
  \<^verbatim>\<open>digitsOnly = phoneCandidate.replace(/[\s\-\(\)\n\r]/g, '')\<close>; the test for the digit
  groups is \<^verbatim>\<open>digitsOnly.match(/^\d{1,3}(\d{1,3})*$/)\<close>, the test for the anchors
  \<^verbatim>\<open>/^(25|50|75|100|125|150|175|200|225|250)/.test(digitsOnly)\<close>.
\<close>

definition phoneEntity :: "jsstring \<Rightarrow> int \<Rightarrow> PIIEntity option" where
  "phoneEntity phoneCandidate index =
     (let digitsOnly = filter (\<lambda>c. \<not> (isSpace c \<or> c = 45 \<or> c = 40 \<or> c = 41 \<or> c = 10 \<or> c = 13))
                         phoneCandidate
      in if length digitsOnly < 10 then None
         else
           let isLikelyEnergyScale =
                 ((List.member phoneCandidate 10 \<or> List.member phoneCandidate 13)
                  \<and> rxFull (Cat (rxRep 1 3 rxDigit) (Star (rxRep 1 3 rxDigit))) digitsOnly
                  \<and> rxPrefix (rxAny [lit ''25'', lit ''50'', lit ''75'', lit ''100'', lit ''125'',
                                      lit ''150'', lit ''175'', lit ''200'', lit ''225'', lit ''250''])
                       digitsOnly);
               spaceSeparatedNumbers =
                 filter (\<lambda>s. length s > 0)
                   (splitWs (map (\<lambda>c. if c = 10 \<or> c = 13 then 32 else c) phoneCandidate));
               allSmallNumbers = list_all (\<lambda>num.
                   case parseInt num of None \<Rightarrow> False | Some parsed \<Rightarrow> parsed \<le> 300)
                 spaceSeparatedNumbers;
               hasEnoughSmallNumbers = (length spaceSeparatedNumbers \<ge> 3 \<and> allSmallNumbers)
           in if isLikelyEnergyScale \<or> hasEnoughSmallNumbers then None
              else Some \<lparr>e_text = phoneCandidate, e_category = js ''PhoneNumber'', e_offset = index,
                         e_length = int (length phoneCandidate), e_confidenceScore = 0.7\<rparr>)"

text \<open>
  The digit groups of a candidate in the sense of the comment "All digit groups are 1-3
  digits": its maximal runs of digits.
\<close>

fun digitGroupsAux :: "jsstring \<Rightarrow> jsstring \<Rightarrow> jsstring list" where
  "digitGroupsAux cur [] = (if cur = [] then [] else [rev cur])"
| "digitGroupsAux cur (c # cs) =
     (if isDigit c then digitGroupsAux (c # cur) cs
      else if cur = [] then digitGroupsAux [] cs
      else rev cur # digitGroupsAux [] cs)"

definition digitGroups :: "jsstring \<Rightarrow> jsstring list" where
  "digitGroups s = digitGroupsAux [] s"

section \<open>Notions used to state the claims\<close>

text \<open>
  What one chunk contributes to the result of \<^verbatim>\<open>detectPII\<close>: chunk \<open>k\<close> (counted from 0)
  is the text from \<open>k * CHUNK_SIZE\<close>, its request has the id \<open>Chunk (k + 1)\<close>, and its
  entities are shifted by the start of the chunk. A failed request contributes nothing.
\<close>

definition chunkResult :: "(DocumentId \<Rightarrow> jsstring \<Rightarrow> jsstring \<Rightarrow> AzureReply) \<Rightarrow> jsstring \<Rightarrow> jsstring \<Rightarrow> nat \<Rightarrow> PIIEntity list" where
  "chunkResult post language text' k =
     (case post (Chunk (k + 1)) language
             (substring text' (int (k * CHUNK_SIZE)) (int (k * CHUNK_SIZE) + int CHUNK_SIZE)) of
        Documents chunkEntities \<Rightarrow>
          map (\<lambda>entity. entity\<lparr>e_offset := e_offset entity + int (k * CHUNK_SIZE)\<rparr>) chunkEntities
      | NoDocuments \<Rightarrow> []
      | Failed message \<Rightarrow> [])"

text \<open>
  The polygons of an OCR result: every word has its eight numbers
  (\<open>polygonsComplete\<close>), and none of them is negative (\<open>polygonsOnPage\<close>).
\<close>

definition polygonsComplete :: "AnalyzeResult \<Rightarrow> bool" where
  "polygonsComplete docIntelResult =
     list_all (\<lambda>page. list_all (\<lambda>word. length (w_polygon word) = 8) (p_words page))
       (ar_pages docIntelResult)"

definition polygonsOnPage :: "AnalyzeResult \<Rightarrow> bool" where
  "polygonsOnPage docIntelResult =
     list_all (\<lambda>page. list_all (\<lambda>word. list_all (\<lambda>c. 0 \<le> c) (w_polygon word)) (p_words page))
       (ar_pages docIntelResult)"

text \<open>An entity written with ASCII literals, for the concrete inputs of the theorems.\<close>

definition mkEntity :: "string \<Rightarrow> string \<Rightarrow> int \<Rightarrow> int \<Rightarrow> real \<Rightarrow> PIIEntity" where
  "mkEntity category txt off len score =
     \<lparr>e_text = js txt, e_category = js category, e_offset = off, e_length = len,
      e_confidenceScore = score\<rparr>"

text \<open>An OCR word and a page, for the concrete inputs of the theorems.\<close>

definition ocrWord :: "string \<Rightarrow> real list \<Rightarrow> int \<Rightarrow> int \<Rightarrow> DocIntelWord" where
  "ocrWord txt polygon off len =
     \<lparr>w_content = js txt, w_polygon = polygon, w_span = \<lparr>s_offset = off, s_length = len\<rparr>,
      w_confidence = 0.99\<rparr>"

definition ocrPage :: "PageUnit \<Rightarrow> real \<Rightarrow> real \<Rightarrow> DocIntelWord list \<Rightarrow> DocIntelPage" where
  "ocrPage unit' width height ws =
     \<lparr>p_pageNumber = 1, p_angle = 0, p_width = width, p_height = height, p_unit = unit',
      p_words = ws\<rparr>"

section \<open>Properties of mergeEntities\<close>

subsection \<open>The callback and the loop in closed form\<close>

lemma cats_distinct:
  "js ''Occupation'' \<noteq> js ''Organization''"
  "js ''Occupation'' \<noteq> js ''PhoneNumber''"
  "js ''Occupation'' \<noteq> js ''InternationalBankingAccountNumber''"
  "js ''DEBankCode'' \<noteq> js ''Organization''"
  "js ''DEBankCode'' \<noteq> js ''PhoneNumber''"
  "js ''DEBankCode'' \<noteq> js ''InternationalBankingAccountNumber''"
  "js ''Occupation'' \<noteq> js ''DEBankCode''"
  by (simp_all add: js_def)

lemma someOverlaps_eq:
  "someOverlaps c as m = (blocked c as, fold (\<lambda>a. spliceFirst (sameAs a)) (triggers c as) m)"
proof (induction as arbitrary: m)
  case Nil
  show ?case by (simp add: blocked_def)
next
  case (Cons a as)
  show ?case
    using Cons.IH
    by (auto simp add: blocked_def prio_def sameAs_def)
qed

lemma forEachCustom_step:
  "forEachCustom as (c # cs) m = forEachCustom as cs (afterCustom as c m)"
  by (simp add: someOverlaps_eq afterCustom_def)

declare forEachCustom.simps(2) [simp del]

lemma spliceFirst_commute:
  "(\<And>e. \<not> (P e \<and> Q e)) \<Longrightarrow> spliceFirst P (spliceFirst Q xs) = spliceFirst Q (spliceFirst P xs)"
  by (induction xs) auto

lemma spliceFirst_append_none:
  "\<not> list_ex P ys \<Longrightarrow> spliceFirst P (xs @ ys) = spliceFirst P xs @ ys"
proof (induction xs)
  case Nil
  then show ?case by (induction ys) auto
next
  case (Cons x xs)
  then show ?case by simp
qed

lemma filter_spliceFirst_same:
  "filter P (spliceFirst P xs) = tl (filter P xs)"
  by (induction xs) auto

lemma filter_spliceFirst_other:
  "(\<And>e. \<not> (P e \<and> Q e)) \<Longrightarrow> filter P (spliceFirst Q xs) = filter P xs"
  by (induction xs) auto

lemma set_spliceFirst_subset: "set (spliceFirst P xs) \<subseteq> set xs"
  by (induction xs) auto

lemma spliceFirst_keeps: "x \<in> set xs \<Longrightarrow> \<not> P x \<Longrightarrow> x \<in> set (spliceFirst P xs)"
  by (induction xs) auto

lemma triggers_subset: "set (triggers c as) \<subseteq> {a \<in> set as. prio c a}"
  by (induction as) auto

lemma sameAs_refl: "sameAs a a"
  by (simp add: sameAs_def sameSpan_def)

lemma sameAs_disjoint_or_eq: "sameAs a e \<Longrightarrow> sameAs b e \<Longrightarrow> sameAs a = sameAs b"
  by (auto simp add: sameAs_def sameSpan_def fun_eq_iff)

lemma rm_commute:
  "spliceFirst (sameAs a) \<circ> spliceFirst (sameAs b) = spliceFirst (sameAs b) \<circ> spliceFirst (sameAs a)"
proof (cases "\<exists>e. sameAs a e \<and> sameAs b e")
  case True
  then have "sameAs a = sameAs b" by (blast intro: sameAs_disjoint_or_eq)
  then show ?thesis by simp
next
  case False
  then have "\<And>e. \<not> (sameAs a e \<and> sameAs b e)" by blast
  then show ?thesis by (auto simp add: fun_eq_iff intro: spliceFirst_commute)
qed

lemma fold_rm_append:
  "\<forall>a\<in>set T. \<not> list_ex (sameAs a) P \<Longrightarrow>
   fold (\<lambda>a. spliceFirst (sameAs a)) T (M @ P) = fold (\<lambda>a. spliceFirst (sameAs a)) T M @ P"
  by (induction T arbitrary: M) (simp_all add: spliceFirst_append_none)

text \<open>
  A custom entity with the span and the category of an Azure entity of positive length
  overlaps it under no priority rule, so it is never pushed.
\<close>

lemma sameAs_blocked:
  assumes "a \<in> set as" "0 < e_length a" "sameAs a c"
  shows "blocked c as"
proof -
  from assms(2,3) have ov: "hasOverlap c a"
    by (simp add: sameAs_def sameSpan_def hasOverlap_def Let_def)
  from assms(3) have "e_category c = e_category a"
    by (simp add: sameAs_def sameSpan_def)
  then have "\<not> prio c a"
    using cats_distinct by (auto simp add: prio_def)
  with ov assms(1) show ?thesis
    by (auto simp add: blocked_def list_ex_iff)
qed

text \<open>
  With Azure entities of positive length the splices only ever hit Azure entities, and
  the loop is: all splices on the Azure list, then the custom entities that were pushed.
\<close>

lemma forEachCustom_closed:
  assumes "\<forall>a\<in>set as. 0 < e_length a"
    and "\<forall>p\<in>set P. \<forall>a\<in>set as. \<not> sameAs a p"
  shows "forEachCustom as cs (M @ P) =
     fold (\<lambda>a. spliceFirst (sameAs a)) (concat (map (\<lambda>c. triggers c as) cs)) M
       @ P @ filter (\<lambda>c. \<not> blocked c as) cs"
  using assms(2)
proof (induction cs arbitrary: M P)
  case Nil
  show ?case by simp
next
  case (Cons c cs)
  let ?rm = "\<lambda>a. spliceFirst (sameAs a)"
  have T: "\<forall>a\<in>set (triggers c as). \<not> list_ex (sameAs a) P"
    using Cons.prems triggers_subset[of c as] by (auto simp add: list_ex_iff)
  have step: "fold ?rm (triggers c as) (M @ P) = fold ?rm (triggers c as) M @ P"
    by (rule fold_rm_append[OF T])
  show ?case
  proof (cases "blocked c as")
    case True
    then show ?thesis
      using Cons.IH[OF Cons.prems, of "fold ?rm (triggers c as) M"]
      by (simp add: forEachCustom_step afterCustom_def step)
  next
    case False
    have "\<forall>a\<in>set as. \<not> sameAs a c"
      using False assms(1) sameAs_blocked by blast
    with Cons.prems have P': "\<forall>p\<in>set (P @ [c]). \<forall>a\<in>set as. \<not> sameAs a p"
      by auto
    show ?thesis
      using Cons.IH[OF P', of "fold ?rm (triggers c as) M"] False
      by (simp add: forEachCustom_step afterCustom_def step)
  qed
qed

lemma mergeEntities_closed:
  assumes "\<forall>a\<in>set as. 0 < e_length a"
  shows "mergeEntities as cs =
     sort_key e_offset (fold (\<lambda>a. spliceFirst (sameAs a)) (concat (map (\<lambda>c. triggers c as) cs)) as
       @ filter (\<lambda>c. \<not> blocked c as) cs)"
  using forEachCustom_closed[OF assms, of "[]" cs as]
  by (simp add: mergeEntities_def)

lemma mset_concat_map_perm:
  "mset xs = mset ys \<Longrightarrow> mset (concat (map f xs)) = mset (concat (map f ys))"
proof -
  assume a: "mset xs = mset ys"
  have "\<And>zs. mset (concat (map f zs)) = (\<Sum>x\<in>#mset zs. mset (f x))"
    by (induct_tac zs) simp_all
  with a show ?thesis by simp
qed

lemma mergeEntities_perm:
  assumes "mset cs' = mset cs" and "\<forall>a\<in>set as. 0 < e_length a"
  shows "mset (mergeEntities as cs') = mset (mergeEntities as cs)"
proof -
  let ?rm = "\<lambda>a. spliceFirst (sameAs a)"
  let ?T = "\<lambda>cs. concat (map (\<lambda>c. triggers c as) cs)"
  have "mset (?T cs') = mset (?T cs)"
    using assms(1) by (rule mset_concat_map_perm)
  then have "fold ?rm (?T cs') = fold ?rm (?T cs)"
    by (intro fold_multiset_equiv) (simp_all add: rm_commute)
  moreover have "mset (filter (\<lambda>c. \<not> blocked c as) cs') = mset (filter (\<lambda>c. \<not> blocked c as) cs)"
    using assms(1) by (simp add: mset_filter)
  ultimately show ?thesis
    by (simp add: mergeEntities_closed[OF assms(2)])
qed

subsection \<open>What one custom entity does to the entities of one span and category\<close>

lemma filter_fold_rm:
  "filter (sameAs a) (fold (\<lambda>b. spliceFirst (sameAs b)) T m)
     = drop (length (filter (sameAs a) T)) (filter (sameAs a) m)"
proof (induction T arbitrary: m)
  case Nil
  show ?case by simp
next
  case (Cons b T)
  show ?case
  proof (cases "sameAs a b")
    case True
    have "sameAs b = sameAs a"
      using True sameAs_refl[of b] by (blast intro: sameAs_disjoint_or_eq)
    then show ?thesis
      using True by (simp add: Cons.IH filter_spliceFirst_same drop_Suc)
  next
    case False
    have "\<And>e. \<not> (sameAs a e \<and> sameAs b e)"
      using False sameAs_refl[of b] by (metis sameAs_disjoint_or_eq)
    then have "filter (sameAs a) (spliceFirst (sameAs b) m) = filter (sameAs a) m"
      by (rule filter_spliceFirst_other)
    then show ?thesis
      using False by (simp add: Cons.IH)
  qed
qed

lemma count_step_le:
  assumes "a \<in> set as" "0 < e_length a"
  shows "length (filter (sameAs a) (afterCustom as c m)) \<le> length (filter (sameAs a) m)"
proof -
  have "\<not> blocked c as \<Longrightarrow> \<not> sameAs a c"
    using assms sameAs_blocked by blast
  then show ?thesis
    by (auto simp add: afterCustom_def filter_fold_rm)
qed

lemma count_forEach_le:
  assumes "a \<in> set as" "0 < e_length a"
  shows "length (filter (sameAs a) (forEachCustom as cs m)) \<le> length (filter (sameAs a) m)"
proof (induction cs arbitrary: m)
  case Nil
  show ?case by simp
next
  case (Cons c cs)
  show ?case
    using Cons.IH[of "afterCustom as c m"] count_step_le[OF assms, of c m]
    by (simp add: forEachCustom_step)
qed

lemma triggers_all:
  "\<forall>b\<in>set as. hasOverlap c b \<longrightarrow> prio c b \<Longrightarrow> triggers c as = filter (hasOverlap c) as"
  by (induction as) (auto simp add: prio_def)

lemma not_blocked_iff: "\<not> blocked c as \<longleftrightarrow> (\<forall>b\<in>set as. hasOverlap c b \<longrightarrow> prio c b)"
  by (auto simp add: blocked_def list_ex_iff)

lemma sameAs_overlap: "sameAs a b \<Longrightarrow> hasOverlap c a \<Longrightarrow> hasOverlap c b"
  by (simp add: sameAs_def sameSpan_def hasOverlap_def Let_def)

lemma removed_after_step:
  assumes "a \<in> set as" "0 < e_length a" "hasOverlap c a" "\<not> blocked c as"
    and "length (filter (sameAs a) m) \<le> length (filter (sameAs a) as)"
  shows "filter (sameAs a) (afterCustom as c m) = []"
proof -
  have t: "triggers c as = filter (hasOverlap c) as"
    using assms(4) by (simp add: not_blocked_iff triggers_all)
  have "filter (sameAs a) (filter (hasOverlap c) as) = filter (sameAs a) as"
    using assms(3) by (auto simp add: sameAs_overlap intro: filter_cong)
  moreover have "\<not> sameAs a c"
    using assms(1,2,4) sameAs_blocked by blast
  ultimately show ?thesis
    using assms(4,5) by (simp add: afterCustom_def filter_fold_rm t)
qed

lemma removed_forEach:
  assumes "a \<in> set as" "0 < e_length a" "hasOverlap c a" "\<not> blocked c as"
  shows "c \<in> set cs \<Longrightarrow> length (filter (sameAs a) m) \<le> length (filter (sameAs a) as)
     \<Longrightarrow> filter (sameAs a) (forEachCustom as cs m) = []"
proof (induction cs arbitrary: m)
  case Nil
  then show ?case by simp
next
  case (Cons c' cs)
  let ?m = "afterCustom as c' m"
  have le: "length (filter (sameAs a) ?m) \<le> length (filter (sameAs a) as)"
    using count_step_le[OF assms(1,2), of c' m] Cons.prems(2) by simp
  show ?case
  proof (cases "c' = c")
    case True
    have "filter (sameAs a) ?m = []"
      using removed_after_step[OF assms Cons.prems(2)] True by simp
    then have "length (filter (sameAs a) (forEachCustom as cs ?m)) \<le> 0"
      using count_forEach_le[OF assms(1,2), of cs ?m] by simp
    then show ?thesis by (simp add: forEachCustom_step)
  next
    case False
    with Cons.prems(1) have "c \<in> set cs" by simp
    from Cons.IH[OF this le] show ?thesis by (simp add: forEachCustom_step)
  qed
qed

lemma fold_rm_keeps:
  "x \<in> set m \<Longrightarrow> \<forall>b\<in>set T. \<not> sameAs b x \<Longrightarrow> x \<in> set (fold (\<lambda>b. spliceFirst (sameAs b)) T m)"
  by (induction T arbitrary: m) (simp_all add: spliceFirst_keeps)

lemma prio_not_sameAs_occupation:
  "prio c b \<Longrightarrow> e_category x = js ''Occupation'' \<Longrightarrow> \<not> sameAs b x"
  using cats_distinct by (auto simp add: prio_def sameAs_def sameSpan_def)

lemma occupation_survives_step:
  assumes "x \<in> set m" "e_category x = js ''Occupation''"
  shows "x \<in> set (afterCustom as c m)"
proof -
  have "\<forall>b\<in>set (triggers c as). \<not> sameAs b x"
    using triggers_subset[of c as] prio_not_sameAs_occupation[OF _ assms(2)] by blast
  then have "x \<in> set (fold (\<lambda>b. spliceFirst (sameAs b)) (triggers c as) m)"
    using assms(1) by (intro fold_rm_keeps)
  then show ?thesis by (simp add: afterCustom_def)
qed

lemma occupation_survives:
  "x \<in> set m \<Longrightarrow> e_category x = js ''Occupation'' \<Longrightarrow> x \<in> set (forEachCustom as cs m)"
proof (induction cs arbitrary: m)
  case Nil
  then show ?case by simp
next
  case (Cons c cs)
  have "x \<in> set (afterCustom as c m)" using Cons.prems by (rule occupation_survives_step)
  from Cons.IH[OF this Cons.prems(2)] show ?case by (simp add: forEachCustom_step)
qed

lemma occupation_admitted:
  "c \<in> set cs \<Longrightarrow> \<not> blocked c as \<Longrightarrow> e_category c = js ''Occupation''
     \<Longrightarrow> c \<in> set (forEachCustom as cs m)"
proof (induction cs arbitrary: m)
  case Nil
  then show ?case by simp
next
  case (Cons c' cs)
  show ?case
  proof (cases "c' = c")
    case True
    then have "c \<in> set (afterCustom as c' m)" using Cons.prems(2) by (simp add: afterCustom_def)
    then show ?thesis using Cons.prems(3) by (simp add: forEachCustom_step occupation_survives)
  next
    case False
    then show ?thesis using Cons by (simp add: forEachCustom_step)
  qed
qed

lemma set_fold_rm_subset: "set (fold (\<lambda>b. spliceFirst (sameAs b)) T m) \<subseteq> set m"
  by (induction T arbitrary: m) (auto dest: set_spliceFirst_subset[THEN subsetD])

lemma set_forEachCustom:
  "set (forEachCustom as cs m) \<subseteq> set m \<union> {c \<in> set cs. \<not> blocked c as}"
proof (induction cs arbitrary: m)
  case Nil
  show ?case by simp
next
  case (Cons c cs)
  have "set (afterCustom as c m) \<subseteq> set m \<union> {c' \<in> {c}. \<not> blocked c' as}"
    using set_fold_rm_subset[of "triggers c as" m] by (auto simp add: afterCustom_def)
  then show ?case
    using Cons.IH[of "afterCustom as c m"] by (auto simp add: forEachCustom_step)
qed

subsection \<open>The claims about mergeEntities\<close>

text \<open>
  Claim C1, as the code has it. Let a custom entity \<open>c\<close> of category Occupation overlap an
  Azure entity \<open>a\<close> of category Organization (of positive length). If every Azure entity
  that \<open>c\<close> overlaps is of category Organization, the merged list contains \<open>c\<close> and does
  not contain \<open>a\<close>. If \<open>c\<close> also overlaps an Azure entity of another category, the
  callback returns true for that entity and \<open>c\<close> is not pushed: the merged list does not
  contain \<open>c\<close> (unless \<open>c\<close> is itself one of the Azure entities).
\<close>

theorem C1_occupation_over_organization:
  assumes "c \<in> set customEntities" "e_category c = js ''Occupation''"
    and "a \<in> set azureEntities" "e_category a = js ''Organization''" "0 < e_length a"
    and "hasOverlap c a"
  shows "((\<forall>b\<in>set azureEntities. hasOverlap c b \<longrightarrow> e_category b = js ''Organization'')
            \<longrightarrow> c \<in> set (mergeEntities azureEntities customEntities)
              \<and> a \<notin> set (mergeEntities azureEntities customEntities))
       \<and> ((\<exists>b\<in>set azureEntities. hasOverlap c b \<and> e_category b \<noteq> js ''Organization'')
            \<longrightarrow> c \<notin> set azureEntities
            \<longrightarrow> c \<notin> set (mergeEntities azureEntities customEntities))"
proof (intro conjI impI)
  assume all: "\<forall>b\<in>set azureEntities. hasOverlap c b \<longrightarrow> e_category b = js ''Organization''"
  have nb: "\<not> blocked c azureEntities"
    using assms(2) all by (auto simp add: not_blocked_iff prio_def)
  show "c \<in> set (mergeEntities azureEntities customEntities)"
    using occupation_admitted[OF assms(1) nb assms(2)] by (simp add: mergeEntities_def)
  have "filter (sameAs a) (forEachCustom azureEntities customEntities azureEntities) = []"
    using removed_forEach[OF assms(3,5,6) nb assms(1), of azureEntities] by simp
  then have "a \<notin> set (forEachCustom azureEntities customEntities azureEntities)"
    using sameAs_refl[of a] by (auto simp add: filter_empty_conv)
  then show "a \<notin> set (mergeEntities azureEntities customEntities)"
    by (simp add: mergeEntities_def)
next
  assume other: "\<exists>b\<in>set azureEntities. hasOverlap c b \<and> e_category b \<noteq> js ''Organization''"
    and notin: "c \<notin> set azureEntities"
  have "blocked c azureEntities"
    using other assms(2) cats_distinct by (auto simp add: blocked_def list_ex_iff prio_def)
  then show "c \<notin> set (mergeEntities azureEntities customEntities)"
    using notin set_forEachCustom[of azureEntities customEntities azureEntities]
    by (auto simp add: mergeEntities_def)
qed

theorem C1_witness:
  "(mkEntity ''Occupation'' ''Doctor'' 7 6 0.85
      \<in> set (mergeEntities
          [mkEntity ''Organization'' ''Praxis Doctor Who GmbH'' 0 22 0.7,
           mkEntity ''Person'' ''Max Muster'' 30 10 0.9]
          [mkEntity ''Occupation'' ''Doctor'' 7 6 0.85])
    \<and> mkEntity ''Organization'' ''Praxis Doctor Who GmbH'' 0 22 0.7
      \<notin> set (mergeEntities
          [mkEntity ''Organization'' ''Praxis Doctor Who GmbH'' 0 22 0.7,
           mkEntity ''Person'' ''Max Muster'' 30 10 0.9]
          [mkEntity ''Occupation'' ''Doctor'' 7 6 0.85]))
   \<and> mkEntity ''Occupation'' ''Doctor'' 7 6 0.85
      \<notin> set (mergeEntities
          [mkEntity ''Organization'' ''Praxis Doctor Who GmbH'' 0 22 0.7,
           mkEntity ''Person'' ''Doctor Who'' 7 10 0.9]
          [mkEntity ''Occupation'' ''Doctor'' 7 6 0.85])"
  using C1_occupation_over_organization
          [of "mkEntity ''Occupation'' ''Doctor'' 7 6 0.85"
              "[mkEntity ''Occupation'' ''Doctor'' 7 6 0.85]"
              "mkEntity ''Organization'' ''Praxis Doctor Who GmbH'' 0 22 0.7"
              "[mkEntity ''Organization'' ''Praxis Doctor Who GmbH'' 0 22 0.7,
                mkEntity ''Person'' ''Max Muster'' 30 10 0.9]"]
        C1_occupation_over_organization
          [of "mkEntity ''Occupation'' ''Doctor'' 7 6 0.85"
              "[mkEntity ''Occupation'' ''Doctor'' 7 6 0.85]"
              "mkEntity ''Organization'' ''Praxis Doctor Who GmbH'' 0 22 0.7"
              "[mkEntity ''Organization'' ''Praxis Doctor Who GmbH'' 0 22 0.7,
                mkEntity ''Person'' ''Doctor Who'' 7 10 0.9]"]
  by (simp add: mkEntity_def hasOverlap_def js_def)

text \<open>
  The claim as it is written fails: the Occupation entity "Doctor" overlaps the
  Organization entity and the Person entity "Doctor Who"; the callback splices the
  Organization entity and then returns true on the Person entity, so the custom entity
  is not pushed and only the Person entity is left.
\<close>

theorem C1_counterexample:
  "hasOverlap (mkEntity ''Occupation'' ''Doctor'' 7 6 0.85)
              (mkEntity ''Organization'' ''Praxis Doctor Who GmbH'' 0 22 0.7)
   \<and> mergeEntities
        [mkEntity ''Organization'' ''Praxis Doctor Who GmbH'' 0 22 0.7,
         mkEntity ''Person'' ''Doctor Who'' 7 10 0.9]
        [mkEntity ''Occupation'' ''Doctor'' 7 6 0.85]
      = [mkEntity ''Person'' ''Doctor Who'' 7 10 0.9]"
  by (simp add: mergeEntities_def forEachCustom.simps(2) mkEntity_def hasOverlap_def sameSpan_def js_def)

text \<open>
  Claim C2, as the code has it. The merged list is sorted ascending by offset and holds
  only entities of the two input lists. Overlaps are resolved between a custom entity and
  the Azure entities only: when the Azure entities have positive length, every custom
  entity that overlaps no Azure entity is in the merged list, whatever other custom
  entities it overlaps.
\<close>

theorem C2_sorted_and_custom_kept:
  "sorted (map e_offset (mergeEntities azureEntities customEntities))
   \<and> set (mergeEntities azureEntities customEntities) \<subseteq> set azureEntities \<union> set customEntities
   \<and> ((\<forall>a\<in>set azureEntities. 0 < e_length a) \<longrightarrow>
        (\<forall>c\<in>set customEntities. \<not> list_ex (hasOverlap c) azureEntities
            \<longrightarrow> c \<in> set (mergeEntities azureEntities customEntities)))"
proof (intro conjI impI ballI)
  show "sorted (map e_offset (mergeEntities azureEntities customEntities))"
    by (simp add: mergeEntities_def)
  show "set (mergeEntities azureEntities customEntities) \<subseteq> set azureEntities \<union> set customEntities"
    using set_forEachCustom[of azureEntities customEntities azureEntities]
    by (auto simp add: mergeEntities_def)
next
  fix c
  assume pos: "\<forall>a\<in>set azureEntities. 0 < e_length a"
    and c: "c \<in> set customEntities"
    and no: "\<not> list_ex (hasOverlap c) azureEntities"
  from no have "\<not> blocked c azureEntities"
    by (auto simp add: blocked_def list_ex_iff)
  with c show "c \<in> set (mergeEntities azureEntities customEntities)"
    by (simp add: mergeEntities_closed[OF pos])
qed

theorem C2_witness:
  "sorted (map e_offset (mergeEntities
      [mkEntity ''Person'' ''Max'' 0 3 0.9]
      [mkEntity ''DateOfBirth'' ''01.02.1990'' 8 10 0.9, mkEntity ''DateOfBirth'' ''01.02.1990'' 8 10 0.85]))
   \<and> mkEntity ''DateOfBirth'' ''01.02.1990'' 8 10 0.9 \<in> set (mergeEntities
      [mkEntity ''Person'' ''Max'' 0 3 0.9]
      [mkEntity ''DateOfBirth'' ''01.02.1990'' 8 10 0.9, mkEntity ''DateOfBirth'' ''01.02.1990'' 8 10 0.85])
   \<and> mkEntity ''DateOfBirth'' ''01.02.1990'' 8 10 0.85 \<in> set (mergeEntities
      [mkEntity ''Person'' ''Max'' 0 3 0.9]
      [mkEntity ''DateOfBirth'' ''01.02.1990'' 8 10 0.9, mkEntity ''DateOfBirth'' ''01.02.1990'' 8 10 0.85])"
  using C2_sorted_and_custom_kept
          [of "[mkEntity ''Person'' ''Max'' 0 3 0.9]"
              "[mkEntity ''DateOfBirth'' ''01.02.1990'' 8 10 0.9,
                mkEntity ''DateOfBirth'' ''01.02.1990'' 8 10 0.85]"]
  by (simp add: mkEntity_def hasOverlap_def)

text \<open>
  The claim as it is written fails: on the text "Geboren 01.02.1990" two date-of-birth
  patterns of detectCustomPatterns emit an entity for the same span (offset 8, length 10),
  with scores 0.90 and 0.85. Neither overlaps an Azure entity, both are pushed, and the
  merged list holds two overlapping custom entities.
\<close>

theorem C2_counterexample:
  "mergeEntities []
      [mkEntity ''DateOfBirth'' ''01.02.1990'' 8 10 0.9, mkEntity ''DateOfBirth'' ''01.02.1990'' 8 10 0.85]
     = [mkEntity ''DateOfBirth'' ''01.02.1990'' 8 10 0.9, mkEntity ''DateOfBirth'' ''01.02.1990'' 8 10 0.85]
   \<and> hasOverlap (mkEntity ''DateOfBirth'' ''01.02.1990'' 8 10 0.9)
                (mkEntity ''DateOfBirth'' ''01.02.1990'' 8 10 0.85)"
  by (simp add: mergeEntities_def forEachCustom.simps(2) mkEntity_def hasOverlap_def)

text \<open>
  Claim C3, as the code has it. For Azure entities of positive length, permuting the list
  of custom entities leaves the merged list the same up to the order of its entries: the
  two merged lists hold the same entities the same number of times, and both are sorted
  by offset. Entities of equal offset keep the order in which they were pushed.
\<close>

theorem C3_permutation_same_entities:
  assumes "mset customEntities' = mset customEntities"
    and "\<forall>a\<in>set azureEntities. 0 < e_length a"
  shows "mset (mergeEntities azureEntities customEntities')
           = mset (mergeEntities azureEntities customEntities)
       \<and> sorted (map e_offset (mergeEntities azureEntities customEntities'))
       \<and> sorted (map e_offset (mergeEntities azureEntities customEntities))"
  using mergeEntities_perm[OF assms] by (simp add: mergeEntities_def)

theorem C3_witness:
  "mset (mergeEntities [mkEntity ''Organization'' ''Praxis Doctor Who GmbH'' 0 22 0.7]
           [mkEntity ''DateOfBirth'' ''01.02.1990'' 40 10 0.9, mkEntity ''Occupation'' ''Doctor'' 7 6 0.85])
     = mset (mergeEntities [mkEntity ''Organization'' ''Praxis Doctor Who GmbH'' 0 22 0.7]
           [mkEntity ''Occupation'' ''Doctor'' 7 6 0.85, mkEntity ''DateOfBirth'' ''01.02.1990'' 40 10 0.9])"
  using C3_permutation_same_entities
          [of "[mkEntity ''DateOfBirth'' ''01.02.1990'' 40 10 0.9, mkEntity ''Occupation'' ''Doctor'' 7 6 0.85]"
              "[mkEntity ''Occupation'' ''Doctor'' 7 6 0.85, mkEntity ''DateOfBirth'' ''01.02.1990'' 40 10 0.9]"
              "[mkEntity ''Organization'' ''Praxis Doctor Who GmbH'' 0 22 0.7]"]
  by (simp add: mkEntity_def)

text \<open>
  The claim as it is written fails: on the text "Beruf: Arzt" the job-title pattern and
  the "label: value" pattern both emit an Occupation entity at offset 7 (scores 0.85 and
  0.80). The sort compares offsets only and is stable, so the merged list keeps them in
  the order of the input list.
\<close>

theorem C3_counterexample:
  "mergeEntities [] [mkEntity ''Occupation'' ''Arzt'' 7 4 0.85, mkEntity ''Occupation'' ''Arzt'' 7 4 0.8]
     \<noteq> mergeEntities [] [mkEntity ''Occupation'' ''Arzt'' 7 4 0.8, mkEntity ''Occupation'' ''Arzt'' 7 4 0.85]"
  by (simp add: mergeEntities_def forEachCustom.simps(2) mkEntity_def)

section \<open>The claims about normalizeText and the phone-number detector\<close>

text \<open>
  Claim C5, as the code has it. \<open>normalizeText\<close> maps "Musterstra\<ss>e" and
  "Musterstrasse" to "musterstrasse", and it maps "Muster Str.", "Muster Stra\<ss>e" and
  "Muster Strasse" to "muster strasse": the sharp s and the abbreviation are folded, a
  space between two words is kept (runs of whitespace are collapsed, not removed).
\<close>

theorem C5_normalizeText_examples:
  "normalizeText (js ''Musterstra'' @ [223] @ js ''e'') = js ''musterstrasse''
   \<and> normalizeText (js ''Musterstrasse'') = js ''musterstrasse''
   \<and> normalizeText (js ''Muster Str.'') = js ''muster strasse''
   \<and> normalizeText (js ''Muster Stra'' @ [223] @ js ''e'') = js ''muster strasse''
   \<and> normalizeText (js ''Muster Strasse'') = js ''muster strasse''"
  by code_simp

text \<open>
  The claim as it is written fails: "Muster Str." and "Musterstrasse" are not mapped to
  the same string.
\<close>

theorem C5_counterexample:
  "normalizeText (js ''Muster Str.'') \<noteq> normalizeText (js ''Musterstrasse'')"
  by code_simp

text \<open>
  Claim C8 at the candidate "100\<newline>2000 3000 400" (a line break after the first
  group). The phone pattern captures it; its digit groups are 100, 2000, 3000 and 400, so
  not all of them have at most 3 digits; its whitespace tokens are not all at most 300;
  it has 14 digits. The claim has it emitted, the code skips it: the test for the digit
  groups runs on \<open>digitsOnly\<close>, where the separators are gone, and holds for every string
  of digits.
\<close>

theorem C8_groups_test_is_vacuous:
  "rxFull phonePattern (js ''100'' @ [10] @ js ''2000 3000 400'')
   \<and> digitGroups (js ''100'' @ [10] @ js ''2000 3000 400'')
       = [js ''100'', js ''2000'', js ''3000'', js ''400'']
   \<and> map parseInt (filter (\<lambda>s. length s > 0) (splitWs (js ''100 2000 3000 400'')))
       = [Some 100, Some 2000, Some 3000, Some 400]
   \<and> phoneEntity (js ''100'' @ [10] @ js ''2000 3000 400'') 0 = None"
  by code_simp

text \<open>
  A second divergence from the same claim: the leading plus sign is not removed from
  \<open>digitsOnly\<close>, so the candidate "+1 23 456 789" with nine digits passes the test for ten
  and is emitted.
\<close>

lemma phone_plus_is_counted:
  "rxFull phonePattern (js ''+1 23 456 789'')
   \<and> length (filter isDigit (js ''+1 23 456 789'')) = 9
   \<and> phoneEntity (js ''+1 23 456 789'') 7 \<noteq> None"
  by code_simp

section \<open>The claim about detectPII\<close>

declare chunkLoop.simps [simp del]

lemma chunkLoop_chunks:
  "offset = k * CHUNK_SIZE \<Longrightarrow>
   chunkLoop post language text' offset
     = concat (map (chunkResult post language text')
                   [k ..< (length text' + CHUNK_SIZE - 1) div CHUNK_SIZE])"
proof (induction post language text' offset arbitrary: k rule: chunkLoop.induct)
  case (1 post language text' offset)
  let ?n = "(length text' + CHUNK_SIZE - 1) div CHUNK_SIZE"
  have lt: "offset < length text' \<longleftrightarrow> k < ?n"
    using "1.prems" by (auto simp add: CHUNK_SIZE_def) 
  show ?case
  proof (cases "offset < length text'")
    case True
    then have k: "k < ?n" using lt by simp
    have "chunkLoop post language text' (offset + CHUNK_SIZE)
            = concat (map (chunkResult post language text') [Suc k ..< ?n])"
      using "1.IH"[OF True refl refl, of "Suc k"] "1.prems" by simp
    moreover have "offset div CHUNK_SIZE + 1 = k + 1"
      using "1.prems" by (simp add: CHUNK_SIZE_def)
    ultimately show ?thesis
      using True k
      by (subst chunkLoop.simps) (simp add: "1.prems" upt_conv_Cons chunkResult_def Let_def split: AzureReply.splits)
  next
    case False
    then have "\<not> k < ?n" using lt by simp
    then show ?thesis
      using False by (subst chunkLoop.simps) simp
  qed
qed


text \<open>
  Claim C4, as the code has it. A text of more than \<open>CHUNK_SIZE\<close> characters is sent in
  chunks, and detectPII never throws on it: the result is the list of what the chunks
  contribute, in order, where a chunk whose request failed contributes nothing and every
  other chunk contributes its entities, shifted by the start of the chunk.
\<close>

theorem C4_chunked_documents_never_throw:
  assumes "length text' > CHUNK_SIZE"
  shows "detectPII post language text'
     = Inr (concat (map (chunkResult post language text')
                        [0 ..< (length text' + CHUNK_SIZE - 1) div CHUNK_SIZE]))"
  using assms chunkLoop_chunks[of 0 0 post language text']
  by (simp add: detectPII_def)

theorem C4_witness:
  "detectPII (\<lambda>id language chunk.
        if id = Chunk 1 then Failed (js ''Request failed with status code 500'')
        else Documents [mkEntity ''Person'' ''Max Muster'' 1 10 0.9])
      (js ''de'') (replicate 5001 65)
   = Inr [mkEntity ''Person'' ''Max Muster'' 5001 10 0.9]"
  using C4_chunked_documents_never_throw
          [of "replicate 5001 65"
              "\<lambda>id language chunk.
                 if id = Chunk 1 then Failed (js ''Request failed with status code 500'')
                 else Documents [mkEntity ''Person'' ''Max Muster'' 1 10 0.9]"
              "js ''de''"]
  by (simp add: CHUNK_SIZE_def chunkResult_def mkEntity_def upt_rec)

text \<open>
  The claim as it is written fails for a text of at most \<open>CHUNK_SIZE\<close> characters: it is
  sent in one request, and when that request fails detectPII throws. The handler awaits
  detectPII outside any inner \<^verbatim>\<open>try\<close>, so the error ends the request with status 500.
\<close>

theorem C4_counterexample:
  "detectPII (\<lambda>id language chunk. Failed (js ''Request failed with status code 500''))
      (js ''de'') (js ''Max Muster, Berlin'')
   = Inl (Error (js ''Azure PII Detection failed: Request failed with status code 500''))"
  by (simp add: detectPII_def CHUNK_SIZE_def js_def)

section \<open>The claims about the redaction regions\<close>

lemma in_allWords:
  "(word, pageIndex) \<in> set (allWords pages)
     \<longleftrightarrow> pageIndex < length pages \<and> word \<in> set (p_words (pages ! pageIndex))"
proof
  assume "(word, pageIndex) \<in> set (allWords pages)"
  then show "pageIndex < length pages \<and> word \<in> set (p_words (pages ! pageIndex))"
    by (auto simp add: allWords_def in_set_enumerate_eq)
next
  assume a: "pageIndex < length pages \<and> word \<in> set (p_words (pages ! pageIndex))"
  then have "(pageIndex, pages ! pageIndex) \<in> set (enumerate 0 pages)"
    by (simp add: in_set_enumerate_eq)
  with a show "(word, pageIndex) \<in> set (allWords pages)"
    by (force simp add: allWords_def)
qed

lemma set_convert:
  "set (convertEntitiesToRedactionCoordinates entities doc) =
     {wordRedaction (ar_pages doc) entity (word, pageIndex) | entity word pageIndex.
        entity \<in> set entities \<and> pageIndex < length (ar_pages doc)
        \<and> word \<in> set (p_words (ar_pages doc ! pageIndex))
        \<and> s_offset (w_span word) < e_offset entity + e_length entity
        \<and> s_offset (w_span word) + s_length (w_span word) > e_offset entity}"
proof -
  have "set (convertEntitiesToRedactionCoordinates entities doc) =
     (\<Union>entity\<in>set entities. wordRedaction (ar_pages doc) entity `
        {item \<in> set (allWords (ar_pages doc)).
           s_offset (w_span (fst item)) < e_offset entity + e_length entity
           \<and> s_offset (w_span (fst item)) + s_length (w_span (fst item)) > e_offset entity})"
    by (auto simp add: convertEntitiesToRedactionCoordinates_def relevantWords_def Let_def)
  also have "\<dots> = {wordRedaction (ar_pages doc) entity (word, pageIndex) | entity word pageIndex.
        entity \<in> set entities \<and> pageIndex < length (ar_pages doc)
        \<and> word \<in> set (p_words (ar_pages doc ! pageIndex))
        \<and> s_offset (w_span word) < e_offset entity + e_length entity
        \<and> s_offset (w_span word) + s_length (w_span word) > e_offset entity}"
    using in_allWords[of _ _ "ar_pages doc"] by (auto; force)
  finally show ?thesis .
qed

lemma wordRedaction_box:
  assumes "w_polygon word = [x1, y1, x2, y2, x3, y3, x4, y4]"
  shows "wordRedaction pages entity (word, i) =
     \<lparr>r_pageIndex = i,
      r_x = max 0 (min x1 (min x2 (min x3 x4)) - 0.02) * (if p_unit (pages ! i) = inch then 72 else 1),
      r_y = max 0 (min y1 (min y2 (min y3 y4)) - 0.02) * (if p_unit (pages ! i) = inch then 72 else 1),
      r_width = (max x1 (max x2 (max x3 x4)) + 0.02 - max 0 (min x1 (min x2 (min x3 x4)) - 0.02))
                  * (if p_unit (pages ! i) = inch then 72 else 1),
      r_height = (max y1 (max y2 (max y3 y4)) + 0.02 - max 0 (min y1 (min y2 (min y3 y4)) - 0.02))
                  * (if p_unit (pages ! i) = inch then 72 else 1),
      r_text = Some (e_text entity), r_category = Some (e_category entity)\<rparr>"
  using assms by (simp add: wordRedaction_def Let_def)

lemma signatureOfSpan_Some:
  "signatureOfSpan content pages span' = Some r \<Longrightarrow>
     matchingWords pages span' \<noteq> []
     \<and> r = signatureRegion (handwrittenTextOf content span') (matchingWords pages span')"
  by (simp add: signatureOfSpan_def Let_def split: if_splits)

lemma set_map_filter_eq:
  "set (List.map_filter f xs) = {y. \<exists>x\<in>set xs. f x = Some y}"
  by (induction xs) (auto split: option.splits)

lemma in_handwrittenSignatures:
  "r \<in> set (handwrittenSignatures doc) \<Longrightarrow>
     \<exists>span'. signatureOfSpan (ar_content doc) (ar_pages doc) span' = Some r"
  by (auto simp add: handwrittenSignatures_def Let_def set_map_filter_eq)

lemma in_matchingWords:
  "mw \<in> set (matchingWords pages span') \<Longrightarrow>
     mw_pageIndex mw < length pages \<and> mw_word mw \<in> set (p_words (pages ! mw_pageIndex mw))"
  by (auto simp add: matchingWords_def Let_def in_set_enumerate_eq)

lemma evens_nonempty: "xs \<noteq> [] \<Longrightarrow> evens xs \<noteq> []"
  by (cases xs rule: evens.cases) auto

lemma set_evens_subset: "set (evens xs) \<subseteq> set xs"
  by (induction xs rule: evens.induct) auto

lemma set_odds_subset: "set (odds xs) \<subseteq> set xs"
  using set_evens_subset[of "tl xs"] by (cases xs) (auto simp add: odds_def)

lemma odds_nonempty: "length xs \<ge> 2 \<Longrightarrow> odds xs \<noteq> []"
proof -
  assume "length xs \<ge> 2"
  then have "tl xs \<noteq> []" by (cases xs) auto
  then show ?thesis unfolding odds_def by (rule evens_nonempty)
qed

lemma clamped_nonneg:
  fixes m k :: real
  assumes "0 \<le> k"
  shows "0 \<le> max 0 m * k"
  using assms by (intro mult_nonneg_nonneg) simp_all

lemma padded_extent_positive:
  fixes zs :: "real list"
  assumes "zs \<noteq> []" "\<forall>z\<in>set zs. 0 \<le> z" "0 < pad" "0 < k"
  shows "0 < (Max (set zs) + pad) * k - max 0 (Min (set zs) - pad) * k"
proof -
  have hd: "hd zs \<in> set zs" using assms(1) by simp
  have "Min (set zs) \<le> hd zs" using hd by simp
  moreover have "hd zs \<le> Max (set zs)" using hd by simp
  moreover have "0 \<le> hd zs" using hd assms(2) by blast
  ultimately have "Min (set zs) - pad < Max (set zs) + pad" "0 < Max (set zs) + pad"
    using assms(3) by linarith+
  then have "max 0 (Min (set zs) - pad) < Max (set zs) + pad"
    by simp
  then have "max 0 (Min (set zs) - pad) * k < (Max (set zs) + pad) * k"
    using assms(4) by simp
  then show ?thesis by simp
qed

lemma unit_factor_positive: "0 < (if u = inch then 72 else (1::real))"
  by simp

lemma signatureRegion_fields:
  "r_x (signatureRegion t mws)
     = max 0 (Min (set (concat (map (\<lambda>mw. evens (w_polygon (mw_word mw))) mws))) - 0.05)
         * (if mw_pageUnit (mws ! 0) = inch then 72 else 1)"
  "r_y (signatureRegion t mws)
     = max 0 (Min (set (concat (map (\<lambda>mw. odds (w_polygon (mw_word mw))) mws))) - 0.05)
         * (if mw_pageUnit (mws ! 0) = inch then 72 else 1)"
  "r_width (signatureRegion t mws)
     = (Max (set (concat (map (\<lambda>mw. evens (w_polygon (mw_word mw))) mws))) + 0.05)
         * (if mw_pageUnit (mws ! 0) = inch then 72 else 1)
       - max 0 (Min (set (concat (map (\<lambda>mw. evens (w_polygon (mw_word mw))) mws))) - 0.05)
         * (if mw_pageUnit (mws ! 0) = inch then 72 else 1)"
  "r_height (signatureRegion t mws)
     = (Max (set (concat (map (\<lambda>mw. odds (w_polygon (mw_word mw))) mws))) + 0.05)
         * (if mw_pageUnit (mws ! 0) = inch then 72 else 1)
       - max 0 (Min (set (concat (map (\<lambda>mw. odds (w_polygon (mw_word mw))) mws))) - 0.05)
         * (if mw_pageUnit (mws ! 0) = inch then 72 else 1)"
  by (simp_all only: signatureRegion_def Let_def RedactionCoordinate.select_convs)

lemma signatureRegion_nonneg:
  "0 \<le> r_x (signatureRegion t mws) \<and> 0 \<le> r_y (signatureRegion t mws)"
  unfolding signatureRegion_fields
  by (intro conjI clamped_nonneg less_imp_le unit_factor_positive)

lemma signatureRegion_positive:
  assumes "mws \<noteq> []"
    and "\<forall>mw\<in>set mws. length (w_polygon (mw_word mw)) = 8
            \<and> (\<forall>c\<in>set (w_polygon (mw_word mw)). 0 \<le> c)"
  shows "0 < r_width (signatureRegion t mws) \<and> 0 < r_height (signatureRegion t mws)"
proof -
  let ?xs = "concat (map (\<lambda>mw. evens (w_polygon (mw_word mw))) mws)"
  let ?ys = "concat (map (\<lambda>mw. odds (w_polygon (mw_word mw))) mws)"
  obtain mw rest where mws: "mws = mw # rest" using assms(1) by (cases mws) auto
  have p8: "length (w_polygon (mw_word mw)) = 8" using assms(2) mws by simp
  have "w_polygon (mw_word mw) \<noteq> []" using p8 by auto
  then have "evens (w_polygon (mw_word mw)) \<noteq> []" by (rule evens_nonempty)
  moreover have "odds (w_polygon (mw_word mw)) \<noteq> []" using p8 by (intro odds_nonempty) simp
  ultimately have ne: "?xs \<noteq> []" "?ys \<noteq> []" using mws by auto
  have nnx: "\<forall>z\<in>set ?xs. 0 \<le> z"
  proof
    fix z assume "z \<in> set ?xs"
    then obtain m where "m \<in> set mws" "z \<in> set (evens (w_polygon (mw_word m)))" by auto
    then show "0 \<le> z" using assms(2) set_evens_subset[of "w_polygon (mw_word m)"] by blast
  qed
  have nny: "\<forall>z\<in>set ?ys. 0 \<le> z"
  proof
    fix z assume "z \<in> set ?ys"
    then obtain m where "m \<in> set mws" "z \<in> set (odds (w_polygon (mw_word m)))" by auto
    then show "0 \<le> z" using assms(2) set_odds_subset[of "w_polygon (mw_word m)"] by blast
  qed
  show ?thesis
    unfolding signatureRegion_fields
    by (intro conjI padded_extent_positive ne nnx nny unit_factor_positive) simp_all
qed

lemma wordRedaction_fields:
  "r_x (wordRedaction pages entity item)
     = max 0 (Min (set [w_polygon (fst item) ! 0, w_polygon (fst item) ! 2,
                        w_polygon (fst item) ! 4, w_polygon (fst item) ! 6]) - 0.02)
         * (if p_unit (pages ! snd item) = inch then 72 else 1)"
  "r_y (wordRedaction pages entity item)
     = max 0 (Min (set [w_polygon (fst item) ! 1, w_polygon (fst item) ! 3,
                        w_polygon (fst item) ! 5, w_polygon (fst item) ! 7]) - 0.02)
         * (if p_unit (pages ! snd item) = inch then 72 else 1)"
  "r_width (wordRedaction pages entity item)
     = (Max (set [w_polygon (fst item) ! 0, w_polygon (fst item) ! 2,
                  w_polygon (fst item) ! 4, w_polygon (fst item) ! 6]) + 0.02
        - max 0 (Min (set [w_polygon (fst item) ! 0, w_polygon (fst item) ! 2,
                           w_polygon (fst item) ! 4, w_polygon (fst item) ! 6]) - 0.02))
         * (if p_unit (pages ! snd item) = inch then 72 else 1)"
  "r_height (wordRedaction pages entity item)
     = (Max (set [w_polygon (fst item) ! 1, w_polygon (fst item) ! 3,
                  w_polygon (fst item) ! 5, w_polygon (fst item) ! 7]) + 0.02
        - max 0 (Min (set [w_polygon (fst item) ! 1, w_polygon (fst item) ! 3,
                           w_polygon (fst item) ! 5, w_polygon (fst item) ! 7]) - 0.02))
         * (if p_unit (pages ! snd item) = inch then 72 else 1)"
  by (simp_all only: wordRedaction_def Let_def RedactionCoordinate.select_convs)

lemma wordRedaction_nonneg:
  "0 \<le> r_x (wordRedaction pages entity item) \<and> 0 \<le> r_y (wordRedaction pages entity item)"
  unfolding wordRedaction_fields
  by (intro conjI clamped_nonneg less_imp_le unit_factor_positive)

lemma wordRedaction_positive:
  assumes "length (w_polygon (fst item)) = 8" "\<forall>c\<in>set (w_polygon (fst item)). 0 \<le> c"
  shows "0 < r_width (wordRedaction pages entity item) \<and> 0 < r_height (wordRedaction pages entity item)"
proof -
  let ?p = "w_polygon (fst item)"
  let ?xs = "[?p ! 0, ?p ! 2, ?p ! 4, ?p ! 6]"
  let ?ys = "[?p ! 1, ?p ! 3, ?p ! 5, ?p ! 7]"
  have nth: "\<And>i. i < 8 \<Longrightarrow> 0 \<le> ?p ! i"
    using assms by (simp add: all_set_conv_all_nth)
  have nnx: "\<forall>z\<in>set ?xs. 0 \<le> z" using nth by simp
  have nny: "\<forall>z\<in>set ?ys. 0 \<le> z" using nth by simp
  have "0 < (Max (set ?xs) + 0.02) * (if p_unit (pages ! snd item) = inch then 72 else 1)
            - max 0 (Min (set ?xs) - 0.02) * (if p_unit (pages ! snd item) = inch then 72 else 1)"
    by (intro padded_extent_positive nnx unit_factor_positive) simp_all
  moreover
  have "0 < (Max (set ?ys) + 0.02) * (if p_unit (pages ! snd item) = inch then 72 else 1)
            - max 0 (Min (set ?ys) - 0.02) * (if p_unit (pages ! snd item) = inch then 72 else 1)"
    by (intro padded_extent_positive nny unit_factor_positive) simp_all
  ultimately show ?thesis
    unfolding wordRedaction_fields by (simp only: left_diff_distrib)
qed

lemma clamp_zero:
  fixes m pad k :: real
  shows "m \<le> pad \<Longrightarrow> max 0 (m - pad) * k = 0"
  by simp

lemma words_of_doc:
  assumes "pageIndex < length (ar_pages doc)" "word \<in> set (p_words (ar_pages doc ! pageIndex))"
  shows "polygonsComplete doc \<Longrightarrow> length (w_polygon word) = 8"
    and "polygonsOnPage doc \<Longrightarrow> \<forall>c\<in>set (w_polygon word). 0 \<le> c"
proof -
  have page: "ar_pages doc ! pageIndex \<in> set (ar_pages doc)"
    using assms(1) by simp
  show "polygonsComplete doc \<Longrightarrow> length (w_polygon word) = 8"
    using page assms(2) unfolding polygonsComplete_def list_all_iff by blast
  show "polygonsOnPage doc \<Longrightarrow> \<forall>c\<in>set (w_polygon word). 0 \<le> c"
    using page assms(2) unfolding polygonsOnPage_def list_all_iff by blast
qed


text \<open>
  Claim C6, as the code has it. The regions of convertEntitiesToRedactionCoordinates are
  the regions \<open>wordRedaction\<close> of the pairs of an entity and a word whose span overlaps
  it. For a word with the corners (x1, y1) to (x4, y4) the region carries the page index
  and the text and category of the entity; with k = 72 on a page measured in inches and
  k = 1 on a page measured in pixels, its right and lower edge are the largest x and y
  plus 0.02, times k, and its left and upper edge are the smallest x and y minus 0.02,
  held at 0, times k. When the smallest x (y) is at least 0.02, the box is expanded by
  0.02 on both sides in that direction.
\<close>

theorem C6_region_of_selected_word:
  "set (convertEntitiesToRedactionCoordinates entities doc) =
     {wordRedaction (ar_pages doc) entity (word, pageIndex) | entity word pageIndex.
        entity \<in> set entities \<and> pageIndex < length (ar_pages doc)
        \<and> word \<in> set (p_words (ar_pages doc ! pageIndex))
        \<and> s_offset (w_span word) < e_offset entity + e_length entity
        \<and> s_offset (w_span word) + s_length (w_span word) > e_offset entity}
   \<and> (\<forall>pages entity word pageIndex x1 y1 x2 y2 x3 y3 x4 y4.
         w_polygon word = [x1, y1, x2, y2, x3, y3, x4, y4] \<longrightarrow>
         (let r = wordRedaction pages entity (word, pageIndex);
              k = (if p_unit (pages ! pageIndex) = inch then 72 else 1);
              minX = Min {x1, x2, x3, x4}; maxX = Max {x1, x2, x3, x4};
              minY = Min {y1, y2, y3, y4}; maxY = Max {y1, y2, y3, y4}
          in r_pageIndex r = pageIndex
             \<and> r_text r = Some (e_text entity) \<and> r_category r = Some (e_category entity)
             \<and> r_x r = k * max 0 (minX - 0.02) \<and> r_y r = k * max 0 (minY - 0.02)
             \<and> r_x r + r_width r = k * (maxX + 0.02) \<and> r_y r + r_height r = k * (maxY + 0.02)
             \<and> (0.02 \<le> minX \<longrightarrow> r_x r = k * (minX - 0.02) \<and> r_width r = k * (maxX - minX + 2 * 0.02))
             \<and> (0.02 \<le> minY \<longrightarrow> r_y r = k * (minY - 0.02) \<and> r_height r = k * (maxY - minY + 2 * 0.02))))"
proof (intro conjI allI impI)
  show "set (convertEntitiesToRedactionCoordinates entities doc) =
     {wordRedaction (ar_pages doc) entity (word, pageIndex) | entity word pageIndex.
        entity \<in> set entities \<and> pageIndex < length (ar_pages doc)
        \<and> word \<in> set (p_words (ar_pages doc ! pageIndex))
        \<and> s_offset (w_span word) < e_offset entity + e_length entity
        \<and> s_offset (w_span word) + s_length (w_span word) > e_offset entity}"
    by (rule set_convert)
next
  fix pages :: "DocIntelPage list" and entity :: PIIEntity and word :: DocIntelWord
    and pageIndex :: nat and x1 y1 x2 y2 x3 y3 x4 y4 :: real
  assume p: "w_polygon word = [x1, y1, x2, y2, x3, y3, x4, y4]"
  define k :: real where "k = (if p_unit (pages ! pageIndex) = inch then 72 else 1)"
  define minX where "minX = Min {x1, x2, x3, x4}"
  define maxX where "maxX = Max {x1, x2, x3, x4}"
  define minY where "minY = Min {y1, y2, y3, y4}"
  define maxY where "maxY = Max {y1, y2, y3, y4}"
  define r where "r = wordRedaction pages entity (word, pageIndex)"
  have x: "r_x r = max 0 (minX - 0.02) * k" and y: "r_y r = max 0 (minY - 0.02) * k"
    and w: "r_width r = (maxX + 0.02 - max 0 (minX - 0.02)) * k"
    and h: "r_height r = (maxY + 0.02 - max 0 (minY - 0.02)) * k"
    unfolding r_def wordRedaction_fields k_def minX_def maxX_def minY_def maxY_def
    by (simp_all only: fst_conv snd_conv p list.set nth_Cons_0 nth_Cons_numeral nth_Cons_Suc
          numeral_2_eq_2 arith_simps insert_commute) simp_all
  have rest: "r_pageIndex r = pageIndex \<and> r_text r = Some (e_text entity)
      \<and> r_category r = Some (e_category entity)"
    by (simp add: r_def wordRedaction_def Let_def)
  have "r_pageIndex r = pageIndex
             \<and> r_text r = Some (e_text entity) \<and> r_category r = Some (e_category entity)
             \<and> r_x r = k * max 0 (minX - 0.02) \<and> r_y r = k * max 0 (minY - 0.02)
             \<and> r_x r + r_width r = k * (maxX + 0.02) \<and> r_y r + r_height r = k * (maxY + 0.02)
             \<and> (0.02 \<le> minX \<longrightarrow> r_x r = k * (minX - 0.02) \<and> r_width r = k * (maxX - minX + 2 * 0.02))
             \<and> (0.02 \<le> minY \<longrightarrow> r_y r = k * (minY - 0.02) \<and> r_height r = k * (maxY - minY + 2 * 0.02))"
    unfolding x y w h using rest by (simp add: algebra_simps max_def)
  then show "let r = wordRedaction pages entity (word, pageIndex);
              k = (if p_unit (pages ! pageIndex) = inch then 72 else 1);
              minX = Min {x1, x2, x3, x4}; maxX = Max {x1, x2, x3, x4};
              minY = Min {y1, y2, y3, y4}; maxY = Max {y1, y2, y3, y4}
          in r_pageIndex r = pageIndex
             \<and> r_text r = Some (e_text entity) \<and> r_category r = Some (e_category entity)
             \<and> r_x r = k * max 0 (minX - 0.02) \<and> r_y r = k * max 0 (minY - 0.02)
             \<and> r_x r + r_width r = k * (maxX + 0.02) \<and> r_y r + r_height r = k * (maxY + 0.02)
             \<and> (0.02 \<le> minX \<longrightarrow> r_x r = k * (minX - 0.02) \<and> r_width r = k * (maxX - minX + 2 * 0.02))
             \<and> (0.02 \<le> minY \<longrightarrow> r_y r = k * (minY - 0.02) \<and> r_height r = k * (maxY - minY + 2 * 0.02))"
    unfolding Let_def r_def k_def minX_def maxX_def minY_def maxY_def .
qed

theorem C6_witness:
  "r_x (wordRedaction [ocrPage inch 8.5 11 [ocrWord ''Max'' [1, 1, 2, 1, 2, 2, 1, 2] 0 3]]
          (mkEntity ''Person'' ''Max'' 0 3 0.9)
          (ocrWord ''Max'' [1, 1, 2, 1, 2, 2, 1, 2] 0 3, 0)) = 72 - 0.02 * 72
   \<and> r_y (wordRedaction [ocrPage inch 8.5 11 [ocrWord ''Max'' [1, 1, 2, 1, 2, 2, 1, 2] 0 3]]
          (mkEntity ''Person'' ''Max'' 0 3 0.9)
          (ocrWord ''Max'' [1, 1, 2, 1, 2, 2, 1, 2] 0 3, 0)) = 72 - 0.02 * 72
   \<and> r_width (wordRedaction [ocrPage inch 8.5 11 [ocrWord ''Max'' [1, 1, 2, 1, 2, 2, 1, 2] 0 3]]
          (mkEntity ''Person'' ''Max'' 0 3 0.9)
          (ocrWord ''Max'' [1, 1, 2, 1, 2, 2, 1, 2] 0 3, 0)) = 72 + 2 * 0.02 * 72
   \<and> r_height (wordRedaction [ocrPage inch 8.5 11 [ocrWord ''Max'' [1, 1, 2, 1, 2, 2, 1, 2] 0 3]]
          (mkEntity ''Person'' ''Max'' 0 3 0.9)
          (ocrWord ''Max'' [1, 1, 2, 1, 2, 2, 1, 2] 0 3, 0)) = 72 + 2 * 0.02 * 72"
proof -
  have p: "w_polygon (ocrWord ''Max'' [1, 1, 2, 1, 2, 2, 1, 2] 0 3) = [1, 1, 2, 1, 2, 2, 1, 2]"
    by (simp add: ocrWord_def)
  have u: "p_unit ([ocrPage inch 8.5 11 [ocrWord ''Max'' [1, 1, 2, 1, 2, 2, 1, 2] 0 3]] ! 0) = inch"
    by (simp add: ocrPage_def)
  from C6_region_of_selected_word[of "[]" "\<lparr>ar_content = [], ar_pages = [], ar_styles = None\<rparr>",
        THEN conjunct2, rule_format, OF p,
        of "[ocrPage inch 8.5 11 [ocrWord ''Max'' [1, 1, 2, 1, 2, 2, 1, 2] 0 3]]"
           "mkEntity ''Person'' ''Max'' 0 3 0.9" 0]
  show ?thesis
    unfolding Let_def u by simp
qed

text \<open>
  The claim as it is written fails for a word at the page origin: the left and upper
  padding is cut off, x and y are 0 and not -0.02 * 72, width and height are
  1.02 * 72 = 73.44 and not 1.04 * 72.
\<close>

theorem C6_counterexample:
  "convertEntitiesToRedactionCoordinates [mkEntity ''Person'' ''Max'' 0 3 0.9]
      \<lparr>ar_content = js ''Max'',
       ar_pages = [ocrPage inch 8.5 11 [ocrWord ''Max'' [0, 0, 1, 0, 1, 1, 0, 1] 0 3]],
       ar_styles = None\<rparr>
     = [\<lparr>r_pageIndex = 0, r_x = 0, r_y = 0, r_width = 73.44, r_height = 73.44,
         r_text = Some (js ''Max''), r_category = Some (js ''Person'')\<rparr>]
   \<and> (0::real) \<noteq> (0 - 0.02) * 72 \<and> (73.44::real) \<noteq> (1 + 2 * 0.02) * 72"
  by (simp add: convertEntitiesToRedactionCoordinates_def allWords_def relevantWords_def
        wordRedaction_def ocrPage_def ocrWord_def mkEntity_def enumerate_eq_zip Let_def)


text \<open>
  Claim C10. In an OCR result whose polygons have their eight numbers, every region of
  convertEntitiesToRedactionCoordinates and every region of the pass over the handwritten
  styles has x and y at least 0; when no coordinate is negative, width and height are
  positive. The padding is cut off at the origin: a word whose smallest x (y) is at most
  0.02 gets x (y) = 0, and a signature whose smallest x (y) is at most 0.05 gets
  x (y) = 0, so the box is not padded by the full amount on that side.
\<close>

theorem C10_regions_start_at_or_after_origin:
  assumes "polygonsComplete doc"
  shows "(\<forall>r\<in>set (convertEntitiesToRedactionCoordinates entities doc) \<union> set (handwrittenSignatures doc).
            0 \<le> r_x r \<and> 0 \<le> r_y r)
       \<and> (polygonsOnPage doc \<longrightarrow>
            (\<forall>r\<in>set (convertEntitiesToRedactionCoordinates entities doc) \<union> set (handwrittenSignatures doc).
               0 < r_width r \<and> 0 < r_height r))
       \<and> (\<forall>pages entity item.
            Min (set [w_polygon (fst item) ! 0, w_polygon (fst item) ! 2,
                      w_polygon (fst item) ! 4, w_polygon (fst item) ! 6]) \<le> 0.02
            \<longrightarrow> r_x (wordRedaction pages entity item) = 0)
       \<and> (\<forall>pages entity item.
            Min (set [w_polygon (fst item) ! 1, w_polygon (fst item) ! 3,
                      w_polygon (fst item) ! 5, w_polygon (fst item) ! 7]) \<le> 0.02
            \<longrightarrow> r_y (wordRedaction pages entity item) = 0)
       \<and> (\<forall>t mws.
            Min (set (concat (map (\<lambda>mw. evens (w_polygon (mw_word mw))) mws))) \<le> 0.05
            \<longrightarrow> r_x (signatureRegion t mws) = 0)
       \<and> (\<forall>t mws.
            Min (set (concat (map (\<lambda>mw. odds (w_polygon (mw_word mw))) mws))) \<le> 0.05
            \<longrightarrow> r_y (signatureRegion t mws) = 0)"
proof -
  let ?regions = "set (convertEntitiesToRedactionCoordinates entities doc) \<union> set (handwrittenSignatures doc)"
  have nonneg: "\<forall>r\<in>?regions. 0 \<le> r_x r \<and> 0 \<le> r_y r"
  proof
    fix r
    assume "r \<in> ?regions"
    then show "0 \<le> r_x r \<and> 0 \<le> r_y r"
    proof
      assume "r \<in> set (convertEntitiesToRedactionCoordinates entities doc)"
      then obtain entity item where "r = wordRedaction (ar_pages doc) entity item"
        unfolding set_convert by blast
      then show ?thesis using wordRedaction_nonneg by simp
    next
      assume "r \<in> set (handwrittenSignatures doc)"
      then obtain span' where "signatureOfSpan (ar_content doc) (ar_pages doc) span' = Some r"
        using in_handwrittenSignatures by blast
      then show ?thesis using signatureOfSpan_Some signatureRegion_nonneg by metis
    qed
  qed
  have positive: "polygonsOnPage doc \<longrightarrow> (\<forall>r\<in>?regions. 0 < r_width r \<and> 0 < r_height r)"
  proof (intro impI ballI)
    fix r
    assume on: "polygonsOnPage doc" and "r \<in> ?regions"
    then show "0 < r_width r \<and> 0 < r_height r"
    proof (elim UnE)
      assume "r \<in> set (convertEntitiesToRedactionCoordinates entities doc)"
      then obtain entity word pageIndex where r: "r = wordRedaction (ar_pages doc) entity (word, pageIndex)"
        and w: "pageIndex < length (ar_pages doc)" "word \<in> set (p_words (ar_pages doc ! pageIndex))"
        unfolding set_convert by blast
      show ?thesis
        unfolding r
        using words_of_doc[OF w] assms on by (intro wordRedaction_positive) simp_all
    next
      assume "r \<in> set (handwrittenSignatures doc)"
      then obtain span' where s: "signatureOfSpan (ar_content doc) (ar_pages doc) span' = Some r"
        using in_handwrittenSignatures by blast
      let ?mws = "matchingWords (ar_pages doc) span'"
      from signatureOfSpan_Some[OF s]
      have ne: "?mws \<noteq> []"
        and r: "r = signatureRegion (handwrittenTextOf (ar_content doc) span') ?mws"
        by simp_all
      have "\<forall>mw\<in>set ?mws. length (w_polygon (mw_word mw)) = 8
              \<and> (\<forall>c\<in>set (w_polygon (mw_word mw)). 0 \<le> c)"
        using in_matchingWords words_of_doc assms on by blast
      with ne show ?thesis unfolding r by (rule signatureRegion_positive)
    qed
  qed
  have cx: "\<forall>pages entity item.
            Min (set [w_polygon (fst item) ! 0, w_polygon (fst item) ! 2,
                      w_polygon (fst item) ! 4, w_polygon (fst item) ! 6]) \<le> 0.02
            \<longrightarrow> r_x (wordRedaction pages entity item) = 0"
    unfolding wordRedaction_fields by (intro allI impI) (erule clamp_zero)
  have cy: "\<forall>pages entity item.
            Min (set [w_polygon (fst item) ! 1, w_polygon (fst item) ! 3,
                      w_polygon (fst item) ! 5, w_polygon (fst item) ! 7]) \<le> 0.02
            \<longrightarrow> r_y (wordRedaction pages entity item) = 0"
    unfolding wordRedaction_fields by (intro allI impI) (erule clamp_zero)
  have sx: "\<forall>t mws.
            Min (set (concat (map (\<lambda>mw. evens (w_polygon (mw_word mw))) mws))) \<le> 0.05
            \<longrightarrow> r_x (signatureRegion t mws) = 0"
    unfolding signatureRegion_fields by (intro allI impI) (erule clamp_zero)
  have sy: "\<forall>t mws.
            Min (set (concat (map (\<lambda>mw. odds (w_polygon (mw_word mw))) mws))) \<le> 0.05
            \<longrightarrow> r_y (signatureRegion t mws) = 0"
    unfolding signatureRegion_fields by (intro allI impI) (erule clamp_zero)
  show ?thesis
    by (intro conjI nonneg positive cx cy sx sy)
qed

theorem C10_witness:
  "0 \<le> r_x (wordRedaction [ocrPage pixel 1000 1400 [ocrWord ''Max'' [0, 0.01, 80, 0.01, 80, 30, 0, 30] 0 3]]
                (mkEntity ''Person'' ''Max'' 0 3 0.9)
                (ocrWord ''Max'' [0, 0.01, 80, 0.01, 80, 30, 0, 30] 0 3, 0))
   \<and> 0 < r_width (wordRedaction [ocrPage pixel 1000 1400 [ocrWord ''Max'' [0, 0.01, 80, 0.01, 80, 30, 0, 30] 0 3]]
                (mkEntity ''Person'' ''Max'' 0 3 0.9)
                (ocrWord ''Max'' [0, 0.01, 80, 0.01, 80, 30, 0, 30] 0 3, 0))
   \<and> r_y (wordRedaction [ocrPage pixel 1000 1400 [ocrWord ''Max'' [0, 0.01, 80, 0.01, 80, 30, 0, 30] 0 3]]
                (mkEntity ''Person'' ''Max'' 0 3 0.9)
                (ocrWord ''Max'' [0, 0.01, 80, 0.01, 80, 30, 0, 30] 0 3, 0)) = 0"
proof -
  let ?w = "ocrWord ''Max'' [0, 0.01, 80, 0.01, 80, 30, 0, 30] 0 3"
  let ?e = "mkEntity ''Person'' ''Max'' 0 3 0.9"
  let ?doc = "\<lparr>ar_content = js ''Max'', ar_pages = [ocrPage pixel 1000 1400 [?w]], ar_styles = None\<rparr>"
  have c: "polygonsComplete ?doc" and o: "polygonsOnPage ?doc"
    by (simp_all add: polygonsComplete_def polygonsOnPage_def ocrPage_def ocrWord_def)
  have m: "wordRedaction (ar_pages ?doc) ?e (?w, 0)
             \<in> set (convertEntitiesToRedactionCoordinates [?e] ?doc) \<union> set (handwrittenSignatures ?doc)"
    unfolding set_convert by (auto simp add: ocrPage_def ocrWord_def mkEntity_def)
  have y: "Min (set [w_polygon (fst (?w, 0::nat)) ! 1, w_polygon (fst (?w, 0::nat)) ! 3,
                     w_polygon (fst (?w, 0::nat)) ! 5, w_polygon (fst (?w, 0::nat)) ! 7]) \<le> 0.02"
    by (simp add: ocrWord_def)
  from C10_regions_start_at_or_after_origin[OF c, of "[?e]"] o m y
  show ?thesis by auto
qed


section \<open>The energy-scale rule of the entity filter\<close>

text \<open>
  The tokens of an entity text do not change when line breaks are replaced by spaces and
  the text is trimmed, which is what the filter does before it splits the text.
\<close>

lemma splitWsAux_map:
  assumes "\<And>c. isSpace (f c) = isSpace c" "\<And>c. \<not> isSpace c \<Longrightarrow> f c = c"
  shows "splitWsAux b cur (map f s) = splitWsAux b cur s"
  by (induction b cur s rule: splitWsAux.induct) (simp_all add: assms)

lemma tokens_in_run:
  "filter (\<lambda>t. t \<noteq> []) (splitWsAux True [] s) = filter (\<lambda>t. t \<noteq> []) (splitWsAux False [] s)"
  by (cases s) simp_all

lemma tokens_dropWhile:
  "filter (\<lambda>t. t \<noteq> []) (splitWsAux False [] (dropWhile isSpace s))
     = filter (\<lambda>t. t \<noteq> []) (splitWsAux False [] s)"
proof (induction s)
  case Nil
  show ?case by simp
next
  case (Cons c s)
  show ?case
  proof (cases "isSpace c")
    case True
    then show ?thesis using Cons tokens_in_run[of s] by simp
  next
    case False
    then show ?thesis by simp
  qed
qed

lemma tokens_all_space:
  "list_all isSpace ws \<Longrightarrow>
   filter (\<lambda>t. t \<noteq> []) (splitWsAux b cur ws) = filter (\<lambda>t. t \<noteq> []) [rev cur]"
proof (induction ws arbitrary: b cur)
  case Nil
  show ?case by simp
next
  case (Cons c ws)
  then have c: "isSpace c" and ws: "list_all isSpace ws" by simp_all
  show ?case
    using c Cons.IH[OF ws, of True cur] Cons.IH[OF ws, of True "[]"] by simp
qed

lemma tokens_append_space:
  "list_all isSpace ws \<Longrightarrow>
   filter (\<lambda>t. t \<noteq> []) (splitWsAux b cur (u @ ws)) = filter (\<lambda>t. t \<noteq> []) (splitWsAux b cur u)"
proof (induction b cur u rule: splitWsAux.induct)
  case (1 inRun cur)
  then show ?case using tokens_all_space[of ws inRun cur] by simp
next
  case (2 inRun cur c cs)
  then show ?case by simp
qed

lemma tokens_trim:
  "filter (\<lambda>t. t \<noteq> []) (splitWs (trim s)) = filter (\<lambda>t. t \<noteq> []) (splitWs s)"
proof -
  let ?d = "dropWhile isSpace s"
  have split: "?d = rev (dropWhile isSpace (rev ?d)) @ rev (takeWhile isSpace (rev ?d))"
    by (metis rev_append rev_rev_ident takeWhile_dropWhile_id)
  have sp: "list_all isSpace (rev (takeWhile isSpace (rev ?d)))"
    by (simp add: list_all_iff) (meson set_takeWhileD)
  have "filter (\<lambda>t. t \<noteq> []) (splitWs (trim s))
          = filter (\<lambda>t. t \<noteq> []) (splitWsAux False [] (rev (dropWhile isSpace (rev ?d))))"
    by (simp add: splitWs_def trim_def)
  also have "\<dots> = filter (\<lambda>t. t \<noteq> [])
        (splitWsAux False [] (rev (dropWhile isSpace (rev ?d)) @ rev (takeWhile isSpace (rev ?d))))"
    using tokens_append_space[OF sp] by simp
  also have "\<dots> = filter (\<lambda>t. t \<noteq> []) (splitWsAux False [] ?d)"
    using split by simp
  also have "\<dots> = filter (\<lambda>t. t \<noteq> []) (splitWs s)"
    by (simp add: tokens_dropWhile splitWs_def)
  finally show ?thesis .
qed

lemma tokens_clean:
  "filter (\<lambda>t. t \<noteq> []) (splitWs (trim (map (\<lambda>c. if c = 10 \<or> c = 13 then 32 else c) s)))
     = filter (\<lambda>t. t \<noteq> []) (splitWs s)"
proof -
  have "splitWs (map (\<lambda>c. if c = 10 \<or> c = 13 then 32 else c) s) = splitWs s"
    unfolding splitWs_def by (rule splitWsAux_map) (auto simp add: isSpace_def)
  then show ?thesis by (simp add: tokens_trim)
qed

lemma digit_not_space: "isDigit c \<Longrightarrow> \<not> isSpace c"
  by (auto simp add: isDigit_def isSpace_def)

lemma parseInt_digits:
  assumes "t \<noteq> []" "list_all isDigit t"
  shows "parseInt t = Some (digitsValue t)"
proof -
  obtain c cs where t: "t = c # cs" using assms(1) by (cases t) auto
  have c: "isDigit c" using assms(2) t by simp
  then have "\<not> isSpace c" "c \<noteq> 43" "c \<noteq> 45"
    by (auto simp add: isDigit_def isSpace_def)
  moreover have "takeWhile isDigit t = t"
    using assms(2) by (simp add: list_all_iff takeWhile_eq_all_conv)
  ultimately show ?thesis
    using t by (simp add: parseInt_def Let_def)
qed

lemma foldl_digits_nonneg:
  "list_all isDigit ds \<Longrightarrow> 0 \<le> acc \<Longrightarrow> 0 \<le> foldl (\<lambda>acc d. 10 * acc + (int d - 48)) acc ds"
  by (induction ds arbitrary: acc) (auto simp add: isDigit_def)

lemma digitsValue_nonneg: "list_all isDigit ds \<Longrightarrow> 0 \<le> digitsValue ds"
  by (simp add: digitsValue_def foldl_digits_nonneg)

lemma map_filter_parseInt:
  "list_all (\<lambda>t. t \<noteq> [] \<and> list_all isDigit t) ts \<Longrightarrow>
   List.map_filter parseInt ts = map digitsValue ts"
  by (induction ts) (simp_all add: parseInt_digits)

lemma spaced_everyAdjacent:
  "\<forall>i. Suc i < length ns \<longrightarrow> ns ! Suc i - ns ! i = d \<Longrightarrow> 0 < d \<Longrightarrow>
   everyAdjacent (\<lambda>p n. n > p) ns"
proof (induction "\<lambda>p n :: int. n > p" ns rule: everyAdjacent.induct)
  case 1
  show ?case by simp
next
  case (2 n)
  show ?case by simp
next
  case (3 p n ns)
  have "Suc 0 < length (p # n # ns) \<longrightarrow> (p # n # ns) ! Suc 0 - (p # n # ns) ! 0 = d"
    using "3.prems"(1) by (rule spec)
  then have "(p # n # ns) ! Suc 0 - (p # n # ns) ! 0 = d" by simp
  then have pn: "p < n" using "3.prems"(2) by simp
  have "\<forall>i. Suc i < length (n # ns) \<longrightarrow> (n # ns) ! Suc i - (n # ns) ! i = d"
  proof (intro allI impI)
    fix i assume "Suc i < length (n # ns)"
    then have "Suc (Suc i) < length (p # n # ns)" by simp
    moreover have "Suc (Suc i) < length (p # n # ns)
        \<longrightarrow> (p # n # ns) ! Suc (Suc i) - (p # n # ns) ! Suc i = d"
      using "3.prems"(1) by (rule spec)
    ultimately have "(p # n # ns) ! Suc (Suc i) - (p # n # ns) ! Suc i = d" by blast
    then show "(n # ns) ! Suc i - (n # ns) ! i = d" by simp
  qed
  then show ?case using "3.hyps" "3.prems"(2) pn by simp
qed

text \<open>
  On a text whose tokens are digit strings the energy-scale test is: at least three
  tokens, none above 300, strictly increasing. The test for even spacing adds nothing: a
  list that rises by 25 or by 50 at each step is strictly increasing.
\<close>

lemma everyAdjacent_sorted:
  "everyAdjacent (\<lambda>p n. n > p) ns \<longleftrightarrow> sorted_wrt (<) ns"
  by (induction "\<lambda>p n :: int. n > p" ns rule: everyAdjacent.induct) fastforce+

lemma step_positive: "d = 25 \<or> d = 50 \<Longrightarrow> 0 < (d :: int)"
  by auto

lemma everyAdjacent_mono:
  "(\<And>p n. R p n \<Longrightarrow> S p n) \<Longrightarrow> everyAdjacent R ns \<Longrightarrow> everyAdjacent S ns"
  by (induction R ns rule: everyAdjacent.induct) simp_all

lemma isEnergyScale_digits_iff:
  assumes tok: "filter (\<lambda>t. t \<noteq> []) (splitWs s) = tokens"
    and dig: "list_all (\<lambda>t. list_all isDigit t) tokens"
  shows "isEnergyScale s \<longleftrightarrow>
           length tokens \<ge> 3 \<and> list_all (\<lambda>t. digitsValue t \<le> 300) tokens
           \<and> sorted_wrt (<) (map digitsValue tokens)"
proof -
  let ?nums = "map digitsValue tokens"
  let ?fd = "if length ?nums \<ge> 2 then ?nums ! 1 - ?nums ! 0 else 0"
  have ne: "list_all (\<lambda>t. t \<noteq> []) tokens"
    using tok by (auto simp add: list_all_iff)
  have dig': "list_all (\<lambda>t. t \<noteq> [] \<and> list_all isDigit t) tokens"
    using ne dig by (auto simp add: list_all_iff)
  have small: "list_all (\<lambda>part. case parseInt part of None \<Rightarrow> False
                                  | Some num \<Rightarrow> num \<ge> 0 \<and> num \<le> 300) tokens
               \<longleftrightarrow> list_all (\<lambda>t. digitsValue t \<le> 300) tokens"
    using dig' by (auto simp add: list_all_iff parseInt_digits digitsValue_nonneg)
  have spaced: "everyAdjacent (\<lambda>p n. n > p) ?nums"
    if "?fd = 25 \<or> ?fd = 50" "everyAdjacent (\<lambda>p n. n - p = ?fd) ?nums"
  proof -
    have "0 < ?fd" using that(1) by (rule step_positive)
    then have "\<And>p n. n - p = ?fd \<Longrightarrow> n > p" by simp
    then show ?thesis using that(2) by (rule everyAdjacent_mono)
  qed
  have inc: "(everyAdjacent (\<lambda>p n. n > p) ?nums
               \<or> ((?fd = 25 \<or> ?fd = 50) \<and> everyAdjacent (\<lambda>p n. n - p = ?fd) ?nums))
             \<longleftrightarrow> sorted_wrt (<) ?nums"
    using spaced everyAdjacent_sorted[of ?nums] by blast
  have tok': "filter (\<lambda>s. length s > 0) (splitWs s) = tokens"
    using tok by simp
  have "isEnergyScale s \<longleftrightarrow>
          length tokens \<ge> 3
          \<and> list_all (\<lambda>part. case parseInt part of None \<Rightarrow> False
                                  | Some num \<Rightarrow> num \<ge> 0 \<and> num \<le> 300) tokens
          \<and> (everyAdjacent (\<lambda>p n. n > p) ?nums
               \<or> ((?fd = 25 \<or> ?fd = 50) \<and> everyAdjacent (\<lambda>p n. n - p = ?fd) ?nums))"
    unfolding isEnergyScale_def tok' Let_def map_filter_parseInt[OF dig'] ..
  then show ?thesis unfolding small inc .
qed

text \<open>
  The filter is \<^verbatim>\<open>entities.filter\<close> with the callback: an entity that the callback
  refuses is missing from the result, one that it keeps stays at its place.
\<close>

lemma filteredEntities_drop:
  "\<not> keepEntity dynamicMatch excludeAddress entity \<Longrightarrow>
   filteredEntities dynamicMatch excludeAddress (before @ entity # after)
     = filteredEntities dynamicMatch excludeAddress before
       @ filteredEntities dynamicMatch excludeAddress after"
  by (simp add: filteredEntities_def)

lemma filteredEntities_keep:
  "keepEntity dynamicMatch excludeAddress entity \<Longrightarrow>
   filteredEntities dynamicMatch excludeAddress (before @ entity # after)
     = filteredEntities dynamicMatch excludeAddress before
       @ entity # filteredEntities dynamicMatch excludeAddress after"
  by (simp add: filteredEntities_def)

lemma energy_scale_refused:
  "isEnergyScale (trim (map (\<lambda>c. if c = 10 \<or> c = 13 then 32 else c) (e_text entity))) \<Longrightarrow>
   \<not> keepEntity dynamicMatch excludeAddress entity"
  by (simp add: keepEntity_def Let_def)

lemma no_rule_kept:
  assumes "\<not> isWhitelisted (e_text entity)"
    and "\<not> (e_category entity = js ''Organization''
            \<and> isOrganizationNoise (trim (map (\<lambda>c. if c = 10 \<or> c = 13 then 32 else c) (e_text entity))))"
    and "\<not> isEnergyScale (trim (map (\<lambda>c. if c = 10 \<or> c = 13 then 32 else c) (e_text entity)))"
  shows "keepEntity dynamicMatch None entity"
    and "keepEntity dynamicMatch (Some []) entity"
    and "address \<noteq> [] \<Longrightarrow> \<not> dynamicMatch (e_text entity) address \<Longrightarrow>
         keepEntity dynamicMatch (Some address) entity"
  using assms by (simp_all add: keepEntity_def Let_def)

lemma example_texts:
  "isEnergyScale (trim (map (\<lambda>c. if c = 10 \<or> c = 13 then 32 else c) (js ''25 50 75 100'')))
   \<and> \<not> isOrganizationNoise (trim (map (\<lambda>c. if c = 10 \<or> c = 13 then 32 else c) (js ''17 203 4'')))
   \<and> \<not> isEnergyScale (trim (map (\<lambda>c. if c = 10 \<or> c = 13 then 32 else c) (js ''17 203 4'')))
   \<and> \<not> isOrganizationNoise (trim (map (\<lambda>c. if c = 10 \<or> c = 13 then 32 else c) (js ''100 75 50'')))
   \<and> \<not> isEnergyScale (trim (map (\<lambda>c. if c = 10 \<or> c = 13 then 32 else c) (js ''100 75 50'')))"
  by code_simp

lemma example_texts_not_whitelisted:
  "\<not> isWhitelisted (js ''17 203 4'') \<and> \<not> isWhitelisted (js ''100 75 50'')"
  by code_simp

lemma role_words_plain:
  "list_all (\<lambda>w. list_all (\<lambda>c. isLower c \<or> c = 32) (normalizeText w)) WHITELISTED_ROLE_WORDS"
  by code_simp

text \<open>
  Claim C9. The entity filter drops every entity, of any category, whose text splits into at
  least three whitespace-separated tokens that are numbers between 0 and 300 and that are
  strictly increasing, or rise by 25 or by 50 at each step (which is strictly increasing
  too): the filtered list is the filtered list of the entities before it, followed by that
  of the entities after it. The tokens are taken to be plain digit strings. So
  "25 50 75 100" is dropped. An entity whose digit tokens are not such a list, and that is not whitelisted
  and not a short Organization text, is kept at its place when no exclusion address is
  given. So "17 203 4" is kept, also with an exclusion address that the dynamic exclusion
  does not match; and "100 75 50", which is evenly spaced by 25 but falls, is kept too.
\<close>

theorem C9_energy_scale_entities_dropped:
  "(\<forall>tokens.
      tokens = filter (\<lambda>t. t \<noteq> []) (splitWs (e_text entity))
      \<and> length tokens \<ge> 3
      \<and> list_all (\<lambda>t. list_all isDigit t \<and> digitsValue t \<le> 300) tokens
      \<and> (sorted_wrt (<) (map digitsValue tokens)
          \<or> (\<exists>d. (d = 25 \<or> d = 50)
                \<and> (\<forall>i. Suc i < length tokens
                      \<longrightarrow> digitsValue (tokens ! Suc i) - digitsValue (tokens ! i) = d)))
      \<longrightarrow> filteredEntities dynamicMatch excludeAddress (before @ entity # after)
             = filteredEntities dynamicMatch excludeAddress before
               @ filteredEntities dynamicMatch excludeAddress after)
   \<and> (\<forall>tokens.
      tokens = filter (\<lambda>t. t \<noteq> []) (splitWs (e_text entity))
      \<and> list_all (\<lambda>t. list_all isDigit t) tokens
      \<and> \<not> (length tokens \<ge> 3 \<and> list_all (\<lambda>t. digitsValue t \<le> 300) tokens
             \<and> sorted_wrt (<) (map digitsValue tokens))
      \<and> \<not> isWhitelisted (e_text entity)
      \<and> \<not> (e_category entity = js ''Organization''
              \<and> isOrganizationNoise (trim (map (\<lambda>c. if c = 10 \<or> c = 13 then 32 else c) (e_text entity))))
      \<longrightarrow> filteredEntities dynamicMatch None (before @ entity # after)
           = filteredEntities dynamicMatch None before
             @ entity # filteredEntities dynamicMatch None after)
   \<and> (e_text entity = js ''25 50 75 100''
      \<longrightarrow> filteredEntities dynamicMatch excludeAddress (before @ entity # after)
             = filteredEntities dynamicMatch excludeAddress before
               @ filteredEntities dynamicMatch excludeAddress after)
   \<and> (e_text entity = js ''17 203 4''
      \<longrightarrow> filteredEntities dynamicMatch None (before @ entity # after)
           = filteredEntities dynamicMatch None before
             @ entity # filteredEntities dynamicMatch None after
          \<and> (\<forall>address. address = [] \<or> \<not> dynamicMatch (js ''17 203 4'') address \<longrightarrow>
                filteredEntities dynamicMatch (Some address) (before @ entity # after)
                = filteredEntities dynamicMatch (Some address) before
                  @ entity # filteredEntities dynamicMatch (Some address) after))
   \<and> (e_text entity = js ''100 75 50''
      \<longrightarrow> filteredEntities dynamicMatch None (before @ entity # after)
           = filteredEntities dynamicMatch None before
             @ entity # filteredEntities dynamicMatch None after)"
proof (intro conjI allI impI)
  fix tokens
  assume a: "tokens = filter (\<lambda>t. t \<noteq> []) (splitWs (e_text entity))
      \<and> length tokens \<ge> 3
      \<and> list_all (\<lambda>t. list_all isDigit t \<and> digitsValue t \<le> 300) tokens
      \<and> (sorted_wrt (<) (map digitsValue tokens)
          \<or> (\<exists>d. (d = 25 \<or> d = 50)
                \<and> (\<forall>i. Suc i < length tokens
                      \<longrightarrow> digitsValue (tokens ! Suc i) - digitsValue (tokens ! i) = d)))"
  then have a1: "tokens = filter (\<lambda>t. t \<noteq> []) (splitWs (e_text entity))"
    and a2: "length tokens \<ge> 3"
    and a3: "list_all (\<lambda>t. list_all isDigit t \<and> digitsValue t \<le> 300) tokens"
    by blast+
  have a4: "sorted_wrt (<) (map digitsValue tokens)"
  proof -
    from a consider "sorted_wrt (<) (map digitsValue tokens)"
      | d where "d = 25 \<or> d = 50"
          "\<forall>i. Suc i < length tokens \<longrightarrow> digitsValue (tokens ! Suc i) - digitsValue (tokens ! i) = d"
      by blast
    then show ?thesis
    proof cases
      case 1
      then show ?thesis .
    next
      case 2
      have "\<forall>i. Suc i < length (map digitsValue tokens)
              \<longrightarrow> map digitsValue tokens ! Suc i - map digitsValue tokens ! i = d"
        using 2(2) by simp
      moreover have "0 < d" using 2(1) by (rule step_positive)
      ultimately have "everyAdjacent (\<lambda>p n. n > p) (map digitsValue tokens)"
        by (rule spaced_everyAdjacent)
      then show ?thesis unfolding everyAdjacent_sorted .
    qed
  qed
  have tok: "filter (\<lambda>t. t \<noteq> []) (splitWs (trim (map (\<lambda>c. if c = 10 \<or> c = 13 then 32 else c) (e_text entity)))) = tokens"
    unfolding a1 by (rule tokens_clean)
  have dig: "list_all (\<lambda>t. list_all isDigit t) tokens"
    and small: "list_all (\<lambda>t. digitsValue t \<le> 300) tokens"
    using a3 by (simp_all add: list_all_iff)
  have "isEnergyScale (trim (map (\<lambda>c. if c = 10 \<or> c = 13 then 32 else c) (e_text entity)))"
    unfolding isEnergyScale_digits_iff[OF tok dig] using a2 small a4 by simp
  then have "\<not> keepEntity dynamicMatch excludeAddress entity"
    by (rule energy_scale_refused)
  then show "filteredEntities dynamicMatch excludeAddress (before @ entity # after)
             = filteredEntities dynamicMatch excludeAddress before
               @ filteredEntities dynamicMatch excludeAddress after"
    by (rule filteredEntities_drop)
next
  fix tokens
  assume b: "tokens = filter (\<lambda>t. t \<noteq> []) (splitWs (e_text entity))
      \<and> list_all (\<lambda>t. list_all isDigit t) tokens
      \<and> \<not> (length tokens \<ge> 3 \<and> list_all (\<lambda>t. digitsValue t \<le> 300) tokens
             \<and> sorted_wrt (<) (map digitsValue tokens))
      \<and> \<not> isWhitelisted (e_text entity)
      \<and> \<not> (e_category entity = js ''Organization''
              \<and> isOrganizationNoise (trim (map (\<lambda>c. if c = 10 \<or> c = 13 then 32 else c) (e_text entity))))"
  then have b1: "tokens = filter (\<lambda>t. t \<noteq> []) (splitWs (e_text entity))"
    and dig: "list_all (\<lambda>t. list_all isDigit t) tokens"
    and b3: "\<not> (length tokens \<ge> 3 \<and> list_all (\<lambda>t. digitsValue t \<le> 300) tokens
             \<and> sorted_wrt (<) (map digitsValue tokens))"
    and b4: "\<not> isWhitelisted (e_text entity)"
    and b5: "\<not> (e_category entity = js ''Organization''
              \<and> isOrganizationNoise (trim (map (\<lambda>c. if c = 10 \<or> c = 13 then 32 else c) (e_text entity))))"
    by blast+
  have tok: "filter (\<lambda>t. t \<noteq> []) (splitWs (trim (map (\<lambda>c. if c = 10 \<or> c = 13 then 32 else c) (e_text entity)))) = tokens"
    unfolding b1 by (rule tokens_clean)
  have "\<not> isEnergyScale (trim (map (\<lambda>c. if c = 10 \<or> c = 13 then 32 else c) (e_text entity)))"
    unfolding isEnergyScale_digits_iff[OF tok dig] using b3 .
  with b4 b5 have "keepEntity dynamicMatch None entity"
    by (rule no_rule_kept(1))
  then show "filteredEntities dynamicMatch None (before @ entity # after)
           = filteredEntities dynamicMatch None before
             @ entity # filteredEntities dynamicMatch None after"
    by (rule filteredEntities_keep)
next
  assume t: "e_text entity = js ''25 50 75 100''"
  have "isEnergyScale (trim (map (\<lambda>c. if c = 10 \<or> c = 13 then 32 else c) (e_text entity)))"
    unfolding t using example_texts by blast
  then have "\<not> keepEntity dynamicMatch excludeAddress entity"
    by (rule energy_scale_refused)
  then show "filteredEntities dynamicMatch excludeAddress (before @ entity # after)
             = filteredEntities dynamicMatch excludeAddress before
               @ filteredEntities dynamicMatch excludeAddress after"
    by (rule filteredEntities_drop)
next
  assume t: "e_text entity = js ''17 203 4''"
  have w: "\<not> isWhitelisted (e_text entity)"
    unfolding t using example_texts_not_whitelisted by blast
  have o: "\<not> (e_category entity = js ''Organization''
            \<and> isOrganizationNoise (trim (map (\<lambda>c. if c = 10 \<or> c = 13 then 32 else c) (e_text entity))))"
    unfolding t using example_texts by blast
  have e: "\<not> isEnergyScale (trim (map (\<lambda>c. if c = 10 \<or> c = 13 then 32 else c) (e_text entity)))"
    unfolding t using example_texts by blast
  have "keepEntity dynamicMatch None entity"
    using w o e by (rule no_rule_kept(1))
  then show "filteredEntities dynamicMatch None (before @ entity # after)
           = filteredEntities dynamicMatch None before
             @ entity # filteredEntities dynamicMatch None after"
    by (rule filteredEntities_keep)
  fix address :: jsstring
  assume d: "address = [] \<or> \<not> dynamicMatch (js ''17 203 4'') address"
  have "keepEntity dynamicMatch (Some address) entity"
  proof (cases "address = []")
    case True
    show ?thesis unfolding True using w o e by (rule no_rule_kept(2))
  next
    case False
    then have "\<not> dynamicMatch (e_text entity) address" using d t by simp
    with False show ?thesis using no_rule_kept(3)[OF w o e] by blast
  qed
  then show "filteredEntities dynamicMatch (Some address) (before @ entity # after)
                = filteredEntities dynamicMatch (Some address) before
                  @ entity # filteredEntities dynamicMatch (Some address) after"
    by (rule filteredEntities_keep)
next
  assume t: "e_text entity = js ''100 75 50''"
  have w: "\<not> isWhitelisted (e_text entity)"
    unfolding t using example_texts_not_whitelisted by blast
  have o: "\<not> (e_category entity = js ''Organization''
            \<and> isOrganizationNoise (trim (map (\<lambda>c. if c = 10 \<or> c = 13 then 32 else c) (e_text entity))))"
    unfolding t using example_texts by blast
  have e: "\<not> isEnergyScale (trim (map (\<lambda>c. if c = 10 \<or> c = 13 then 32 else c) (e_text entity)))"
    unfolding t using example_texts by blast
  have "keepEntity dynamicMatch None entity"
    using w o e by (rule no_rule_kept(1))
  then show "filteredEntities dynamicMatch None (before @ entity # after)
           = filteredEntities dynamicMatch None before
             @ entity # filteredEntities dynamicMatch None after"
    by (rule filteredEntities_keep)
qed

theorem C9_witness:
  "filteredEntities (\<lambda>entityText address. False) None
      [mkEntity ''Address'' ''50 75  100 125'' 40 14 0.6,
       mkEntity ''Organization'' ''17 203 4'' 60 8 0.5,
       mkEntity ''Quantity'' ''100 75 50'' 70 9 0.6,
       mkEntity ''Quantity'' ''3 40 290'' 80 8 0.6]
     = [mkEntity ''Organization'' ''17 203 4'' 60 8 0.5,
        mkEntity ''Quantity'' ''100 75 50'' 70 9 0.6]"
proof -
  let ?dm = "\<lambda>entityText address :: jsstring. False"
  let ?e1 = "mkEntity ''Address'' ''50 75  100 125'' 40 14 0.6"
  let ?e2 = "mkEntity ''Organization'' ''17 203 4'' 60 8 0.5"
  let ?e3 = "mkEntity ''Quantity'' ''100 75 50'' 70 9 0.6"
  let ?e4 = "mkEntity ''Quantity'' ''3 40 290'' 80 8 0.6"
  have t: "e_text ?e1 = js ''50 75  100 125''" "e_text ?e2 = js ''17 203 4''"
      "e_text ?e3 = js ''100 75 50''" "e_text ?e4 = js ''3 40 290''"
      "e_category ?e3 = js ''Quantity''"
    by (simp_all add: mkEntity_def)
  have tk: "filter (\<lambda>t. t \<noteq> []) (splitWs (js ''50 75  100 125''))
             = [js ''50'', js ''75'', js ''100'', js ''125'']"
      "filter (\<lambda>t. t \<noteq> []) (splitWs (js ''100 75 50'')) = [js ''100'', js ''75'', js ''50'']"
      "filter (\<lambda>t. t \<noteq> []) (splitWs (js ''3 40 290'')) = [js ''3'', js ''40'', js ''290'']"
    by code_simp+
  have v: "map digitsValue [js ''50'', js ''75'', js ''100'', js ''125''] = [50, 75, 100, 125]"
      "map digitsValue [js ''100'', js ''75'', js ''50''] = [100, 75, 50]"
      "map digitsValue [js ''3'', js ''40'', js ''290''] = [3, 40, 290]"
      "list_all (\<lambda>t. list_all isDigit t \<and> digitsValue t \<le> 300) [js ''50'', js ''75'', js ''100'', js ''125'']"
      "list_all (\<lambda>t. list_all isDigit t) [js ''100'', js ''75'', js ''50'']"
      "list_all (\<lambda>t. list_all isDigit t \<and> digitsValue t \<le> 300) [js ''3'', js ''40'', js ''290'']"
    by code_simp+
  have q: "js ''Quantity'' \<noteq> js ''Organization''"
    by code_simp
  have nw: "\<not> isWhitelisted (js ''100 75 50'')"
    using example_texts_not_whitelisted by blast
  have 0: "filteredEntities ?dm None [] = []" by (simp add: filteredEntities_def)
  have 4: "filteredEntities ?dm None ([] @ ?e4 # []) = []"
    using C9_energy_scale_entities_dropped [of ?e4 ?dm None "[]" "[]",
             THEN conjunct1, rule_format, of "[js ''3'', js ''40'', js ''290'']"]
          tk(3) v(3,6) 0
    unfolding t by simp
  have 3: "filteredEntities ?dm None ([] @ ?e3 # [?e4]) = [?e3]"
    using C9_energy_scale_entities_dropped [of ?e3 ?dm None "[]" "[?e4]",
             THEN conjunct2, THEN conjunct1, rule_format, of "[js ''100'', js ''75'', js ''50'']"]
          tk(2) v(2,5) q nw 0 4
    unfolding t by simp
  have 2: "filteredEntities ?dm None ([] @ ?e2 # [?e3, ?e4]) = [?e2, ?e3]"
    using C9_energy_scale_entities_dropped [of ?e2 ?dm None "[]" "[?e3, ?e4]",
             THEN conjunct2, THEN conjunct2, THEN conjunct2, THEN conjunct1, rule_format,
             OF t(2), THEN conjunct1]
          0 3
    by simp
  have 1: "filteredEntities ?dm None ([] @ ?e1 # [?e2, ?e3, ?e4]) = [?e2, ?e3]"
    using C9_energy_scale_entities_dropped [of ?e1 ?dm None "[]" "[?e2, ?e3, ?e4]",
             THEN conjunct1, rule_format, of "[js ''50'', js ''75'', js ''100'', js ''125'']"]
          tk(1) v(1,4) 0 2
    unfolding t by simp
  from 1 show ?thesis by simp
qed

theorem C9_counterexample:
  "map digitsValue (filter (\<lambda>t. t \<noteq> []) (splitWs (js ''100 75 50''))) = [100, 75, 50]
   \<and> filteredEntities (\<lambda>entityText address. False) None
        [mkEntity ''Quantity'' ''100 75 50'' 40 9 0.6]
      = [mkEntity ''Quantity'' ''100 75 50'' 40 9 0.6]"
proof -
  let ?e = "mkEntity ''Quantity'' ''100 75 50'' 40 9 0.6"
  have t: "e_text ?e = js ''100 75 50''" by (simp add: mkEntity_def)
  have 1: "map digitsValue (filter (\<lambda>t. t \<noteq> []) (splitWs (js ''100 75 50''))) = [100, 75, 50]"
    by code_simp
  have w: "\<not> isWhitelisted (e_text ?e)"
    unfolding t using example_texts_not_whitelisted by blast
  have o: "\<not> (e_category ?e = js ''Organization''
            \<and> isOrganizationNoise (trim (map (\<lambda>c. if c = 10 \<or> c = 13 then 32 else c) (e_text ?e))))"
    unfolding t using example_texts by blast
  have e: "\<not> isEnergyScale (trim (map (\<lambda>c. if c = 10 \<or> c = 13 then 32 else c) (e_text ?e)))"
    unfolding t using example_texts by blast
  have "keepEntity (\<lambda>entityText address. False) None ?e"
    using w o e by (rule no_rule_kept(1))
  then have "filteredEntities (\<lambda>entityText address. False) None [?e] = [?e]"
    by (simp add: filteredEntities_def)
  with 1 show ?thesis by simp
qed


section \<open>Which handwritten spans are signatures\<close>




























end
